theory Spec2Isabelle
  imports Main
begin

section \<open>Strings\<close>

text \<open>
  JavaScript strings are modelled as \<^typ>\<open>string\<close> (lists of \<^typ>\<open>char\<close>); a character
  stands for one code unit below 256. The characters the shell treats specially are all
  ASCII.
\<close>

abbreviation dquote :: char where "dquote \<equiv> CHR 0x22"
abbreviation squote :: char where "squote \<equiv> CHR 0x27"
abbreviation backslash :: char where "backslash \<equiv> CHR 0x5C"
abbreviation slash :: char where "slash \<equiv> CHR ''/''"

text \<open>\<^verbatim>\<open>isWhitespace(ch)\<close> of commandLine.js: space, tab, line feed, carriage return.\<close>

definition isWhitespace :: "char \<Rightarrow> bool" where
  "isWhitespace ch \<longleftrightarrow> ch = CHR '' '' \<or> ch = CHR 0x09 \<or> ch = CHR 0x0A \<or> ch = CHR 0x0D"

text \<open>
  \<^verbatim>\<open>String.prototype.trim\<close> and the regular expression class \<^verbatim>\<open>\s\<close> use the
  larger ECMAScript white space set; below 256 it is U+0009..U+000D, U+0020 and U+00A0.
\<close>

definition jsSpace :: "char \<Rightarrow> bool" where
  "jsSpace ch \<longleftrightarrow> ch \<in> set [CHR 0x09, CHR 0x0A, CHR 0x0B, CHR 0x0C, CHR 0x0D, CHR 0x20, CHR 0xA0]"

definition trim :: "string \<Rightarrow> string" where
  "trim s = rev (dropWhile jsSpace (rev (dropWhile jsSpace s)))"

text \<open>\<^verbatim>\<open>s.startsWith(p)\<close> and \<^verbatim>\<open>s.endsWith(p)\<close>.\<close>

definition startsWith :: "string \<Rightarrow> string \<Rightarrow> bool" where
  "startsWith s p \<longleftrightarrow> take (length p) s = p"

definition endsWith :: "string \<Rightarrow> string \<Rightarrow> bool" where
  "endsWith s p \<longleftrightarrow> length p \<le> length s \<and> drop (length s - length p) s = p"

text \<open>\<^verbatim>\<open>s.split(c)\<close> for a one-character separator: never empty, \<^verbatim>\<open>''.split('/')\<close> is \<^verbatim>\<open>['']\<close>.\<close>

fun splitOn :: "char \<Rightarrow> string \<Rightarrow> string list" where
  "splitOn c [] = [[]]"
| "splitOn c (x # xs) =
     (if x = c then [] # splitOn c xs
      else (case splitOn c xs of [] \<Rightarrow> [[x]] | y # ys \<Rightarrow> (x # y) # ys))"

text \<open>\<^verbatim>\<open>parts.join(c)\<close>.\<close>

fun joinWith :: "char \<Rightarrow> string list \<Rightarrow> string" where
  "joinWith c [] = []"
| "joinWith c [s] = s"
| "joinWith c (s # t # ts) = s @ c # joinWith c (t # ts)"

section \<open>Command line tokenizer (utils/commandLine.js)\<close>

record token =
  tvalue :: string
  rawStart :: nat
  rawEnd :: nat
  tquoteChar :: "char option"
  thadQuotes :: bool

text \<open>The local variables of \<^verbatim>\<open>tokenizeCommandLine\<close>; \<^verbatim>\<open>null\<close> is \<^const>\<open>None\<close>.\<close>

record tokState =
  tokens :: "token list"
  buf :: string
  tokenStart :: "nat option"
  quote :: "char option"
  quoteChar :: "char option"
  hadQuotes :: bool
  escaping :: bool

definition initTokState :: tokState where
  "initTokState = \<lparr>tokens = [], buf = [], tokenStart = None, quote = None,
     quoteChar = None, hadQuotes = False, escaping = False\<rparr>"

text \<open>The closure \<^verbatim>\<open>pushToken(tokenEnd)\<close>: it also resets \<^verbatim>\<open>quote\<close>.\<close>

definition pushToken :: "nat \<Rightarrow> tokState \<Rightarrow> tokState" where
  "pushToken tokenEnd st =
     (case tokenStart st of
        None \<Rightarrow> st
      | Some ts \<Rightarrow>
          \<lparr>tokens = tokens st @ [\<lparr>tvalue = buf st, rawStart = ts, rawEnd = tokenEnd,
                                   tquoteChar = quoteChar st, thadQuotes = hadQuotes st\<rparr>],
           buf = [], tokenStart = None, quote = None, quoteChar = None,
           hadQuotes = False, escaping = False\<rparr>)"

text \<open>\<^verbatim>\<open>if (tokenStart == null) tokenStart = k\<close>.\<close>

definition startAt :: "nat \<Rightarrow> tokState \<Rightarrow> tokState" where
  "startAt k st = (if tokenStart st = None then st\<lparr>tokenStart := Some k\<rparr> else st)"

text \<open>
  The main loop \<^verbatim>\<open>while (i < src.length)\<close>: the first argument is the index \<^verbatim>\<open>i\<close>, the
  second the rest of the input from \<^verbatim>\<open>i\<close> on. The branches are in the order of the source;
  the white space branch consumes the whole run of white space at once, as the inner loop does.
\<close>

function tokLoop :: "nat \<Rightarrow> string \<Rightarrow> tokState \<Rightarrow> tokState" where
  "tokLoop i [] st = st"
| "tokLoop i (ch # cs) st =
     (if escaping st then
        tokLoop (i + 1) cs ((startAt (i - 1) st)\<lparr>buf := buf st @ [ch], escaping := False\<rparr>)
      else if ch = backslash then
        tokLoop (i + 1) cs ((startAt i st)\<lparr>escaping := True\<rparr>)
      else if quote st \<noteq> None then
        (if Some ch = quote st then
           tokLoop (i + 1) cs (st\<lparr>hadQuotes := True, quote := None\<rparr>)
         else
           tokLoop (i + 1) cs ((startAt i st)\<lparr>buf := buf st @ [ch]\<rparr>))
      else if ch = dquote \<or> ch = squote then
        tokLoop (i + 1) cs
          ((startAt i st)\<lparr>quote := Some ch, quoteChar := Some ch, hadQuotes := True\<rparr>)
      else if isWhitespace ch then
        (let st' = (if tokenStart st \<noteq> None then pushToken i st else st);
             rest = dropWhile isWhitespace (ch # cs)
         in tokLoop (i + (length (ch # cs) - length rest)) rest st')
      else
        tokLoop (i + 1) cs ((startAt i st)\<lparr>buf := buf st @ [ch]\<rparr>))"
  by pat_completeness auto
termination
  by (relation "measure (\<lambda>(i, cs, st). length cs)")
     (auto simp: le_imp_less_Suc length_dropWhile_le)

record tokenized =
  ttokens :: "token list"
  endsWithSpace :: bool
  unterminatedQuote :: bool

definition tokenizeCommandLine :: "string \<Rightarrow> tokenized" where
  "tokenizeCommandLine src =
     (let st = tokLoop 0 src initTokState;
          st1 = (if escaping st then st\<lparr>buf := buf st @ [backslash], escaping := False\<rparr> else st);
          st2 = (if tokenStart st1 \<noteq> None then pushToken (length src) st1 else st1)
      in \<lparr>ttokens = tokens st2,
          endsWithSpace = (src \<noteq> [] \<and> isWhitespace (last src)),
          unterminatedQuote = (quote st2 \<noteq> None)\<rparr>)"

record parsedLine =
  command :: string
  args :: "string list"

text \<open>\<^verbatim>\<open>parseCommandLine\<close>: \<^verbatim>\<open>parts[0] || ''\<close> and \<^verbatim>\<open>parts.slice(1)\<close>.\<close>

definition parseCommandLine :: "string \<Rightarrow> parsedLine" where
  "parseCommandLine input =
     (let parts = map tvalue (ttokens (tokenizeCommandLine input))
      in \<lparr>command = (case parts of [] \<Rightarrow> [] | p # _ \<Rightarrow> p), args = drop 1 parts\<rparr>)"

section \<open>Path resolver (fs/pathUtils.js)\<close>

text \<open>One round of the loop over \<^verbatim>\<open>rawParts\<close>: \<^verbatim>\<open>..\<close> pops if it can, anything else is pushed.\<close>

definition normStep :: "string list \<Rightarrow> string \<Rightarrow> string list" where
  "normStep result part =
     (if part = ''..'' then (if length result > 0 then butlast result else result)
      else result @ [part])"

definition normalizePathParts :: "string list \<Rightarrow> string \<Rightarrow> string list" where
  "normalizePathParts cwdParts path =
     (let base = cwdParts in
      if path = [] \<or> path = ''.'' then base
      else
        let isAbsolute = startsWith path ''/'';
            rawParts = filter (\<lambda>p. p \<noteq> [] \<and> p \<noteq> ''.'') (splitOn slash path);
            result = (if isAbsolute then [] else base)
        in foldl normStep result rawParts)"

definition normalizePathFromCwd :: "string \<Rightarrow> string \<Rightarrow> string" where
  "normalizePathFromCwd cwdPath path =
     (let cwdParts = (if cwdPath = [] \<or> cwdPath = ''/'' then []
                      else filter (\<lambda>p. p \<noteq> []) (splitOn slash cwdPath));
          parts = normalizePathParts cwdParts path
      in slash # joinWith slash parts)"

section \<open>Virtual file system (fs/virtualFileSystem.js)\<close>

text \<open>
  A file's \<^verbatim>\<open>name\<close> is \<^const>\<open>None\<close> when the property is \<^verbatim>\<open>undefined\<close>: \<^verbatim>\<open>writeFile\<close>
  takes the name from \<^verbatim>\<open>parts.pop()\<close>, which is \<^verbatim>\<open>undefined\<close> on an empty array.
\<close>

datatype VfsFile = VfsFile (name: "string option") (content: string)

datatype VfsFolder = VfsFolder (fname: string) (folders: "VfsFolder list") (files: "VfsFile list")

record VfsState =
  root :: VfsFolder
  cwdParts :: "string list"

text \<open>
  The storage object behind \<^verbatim>\<open>save()\<close>: the item under the VFS key and the number of
  \<^verbatim>\<open>setItem\<close> calls made so far. The item is the JSON text of the state, which
  \<^verbatim>\<open>JSON.parse\<close> reads back unchanged, so it is kept as the state itself.
  \<^verbatim>\<open>setItem\<close> of a \<^verbatim>\<open>Storage\<close> throws when it cannot store the value (the quota of
  \<^verbatim>\<open>localStorage\<close>; init.js and restore.js wrap their own calls in \<^verbatim>\<open>try\<close>): the field
  \<open>setItemThrows\<close> gives, for each value, the message of the exception the call throws,
  or \<^const>\<open>None\<close> when the call stores the value.
\<close>

record Storage =
  item :: "VfsState option"
  setItemCalls :: nat
  setItemThrows :: "VfsState \<Rightarrow> string option"

record VirtualFileSystem =
  state :: VfsState
  storage :: Storage

text \<open>
  The errors thrown by the store, one constructor per message; \<open>SetItemThrew\<close> is the
  exception of \<^verbatim>\<open>setItem\<close>, which \<^verbatim>\<open>save()\<close> does not catch.
\<close>

datatype vfs_error =
    CdNoSuch string
  | MkdirInvalidName
  | MkdirExists string
  | LsNoAccess string
  | RmdirNoSuch string
  | RmdirNotEmpty string
  | NoSuchDirectoryForPath string
  | CatNoSuchFile string
  | NoSuchFile string
  | TypeError
  | SetItemThrew string

type_synonym 'a vfs_result = "(vfs_error + 'a) \<times> VirtualFileSystem"

definition createDefaultState :: VfsState where
  "createDefaultState = \<lparr>root = VfsFolder ''/'' [] [], cwdParts = []\<rparr>"

text \<open>
  \<^verbatim>\<open>save()\<close>: one call of \<^verbatim>\<open>setItem\<close> with the current state. When the call throws,
  the item stays as it was and the exception leaves \<^verbatim>\<open>save()\<close> and the operation that
  called it; the state in memory is the one the operation has already changed.
\<close>

definition setItem :: "VfsState \<Rightarrow> Storage \<Rightarrow> string option \<times> Storage" where
  "setItem s st =
     (case setItemThrows st s of
        Some msg \<Rightarrow> (Some msg, st\<lparr>setItemCalls := Suc (setItemCalls st)\<rparr>)
      | None \<Rightarrow> (None, st\<lparr>item := Some s, setItemCalls := Suc (setItemCalls st)\<rparr>))"

definition save :: "VirtualFileSystem \<Rightarrow> unit vfs_result" where
  "save v =
     (case setItem (state v) (storage v) of
        (Some msg, st) \<Rightarrow> (Inl (SetItemThrew msg), v\<lparr>storage := st\<rparr>)
      | (None, st) \<Rightarrow> (Inr (), v\<lparr>storage := st\<rparr>))"

text \<open>\<^verbatim>\<open>_resolveFolder(parts)\<close>: at each level the first folder of that name.\<close>

fun resolveFrom :: "VfsFolder \<Rightarrow> string list \<Rightarrow> VfsFolder option" where
  "resolveFrom current [] = Some current"
| "resolveFrom current (part # parts) =
     (case find (\<lambda>f. fname f = part) (folders current) of
        None \<Rightarrow> None
      | Some next \<Rightarrow> resolveFrom next parts)"

definition resolveFolder :: "VirtualFileSystem \<Rightarrow> string list \<Rightarrow> VfsFolder option" where
  "resolveFolder v parts = resolveFrom (root (state v)) parts"

definition getCwdFolder :: "VirtualFileSystem \<Rightarrow> VfsFolder option" where
  "getCwdFolder v = resolveFolder v (cwdParts (state v))"

definition getCwdPath :: "VirtualFileSystem \<Rightarrow> string" where
  "getCwdPath v = slash # joinWith slash (cwdParts (state v))"

text \<open>
  The store mutates the folder object that \<^verbatim>\<open>_resolveFolder\<close> returned. In the tree
  value this is an update of the node on the same path: \<open>modifyFolder g parts\<close> applies
  \<open>g\<close> to the folder that \<^const>\<open>resolveFrom\<close> reaches, and changes nothing if there is none.
\<close>

fun mapFirst :: "('a \<Rightarrow> bool) \<Rightarrow> ('a \<Rightarrow> 'a) \<Rightarrow> 'a list \<Rightarrow> 'a list" where
  "mapFirst P h [] = []"
| "mapFirst P h (x # xs) = (if P x then h x # xs else x # mapFirst P h xs)"

primrec modifyFolder :: "(VfsFolder \<Rightarrow> VfsFolder) \<Rightarrow> string list \<Rightarrow> VfsFolder \<Rightarrow> VfsFolder" where
  "modifyFolder g [] = g"
| "modifyFolder g (part # parts) =
     (\<lambda>current. VfsFolder (fname current)
        (mapFirst (\<lambda>f. fname f = part) (modifyFolder g parts) (folders current))
        (files current))"

definition mutateFolder :: "string list \<Rightarrow> (VfsFolder \<Rightarrow> VfsFolder) \<Rightarrow> VirtualFileSystem \<Rightarrow> VirtualFileSystem" where
  "mutateFolder parts g v = v\<lparr>state := (state v)\<lparr>root := modifyFolder g parts (root (state v))\<rparr>\<rparr>"

text \<open>\<^verbatim>\<open>xs.findIndex(P)\<close>, with \<^const>\<open>None\<close> for \<^verbatim>\<open>-1\<close>.\<close>

fun findIndex :: "('a \<Rightarrow> bool) \<Rightarrow> 'a list \<Rightarrow> nat option" where
  "findIndex P [] = None"
| "findIndex P (x # xs) =
     (if P x then Some 0 else (case findIndex P xs of None \<Rightarrow> None | Some i \<Rightarrow> Some (Suc i)))"

text \<open>\<^verbatim>\<open>xs.splice(idx, 1)\<close>.\<close>

definition splice1 :: "nat \<Rightarrow> 'a list \<Rightarrow> 'a list" where
  "splice1 idx xs = take idx xs @ drop (Suc idx) xs"

text \<open>\<^verbatim>\<open>parts.pop()\<close>: the value returned; the array left behind is \<^const>\<open>butlast\<close>.\<close>

definition popName :: "string list \<Rightarrow> string option" where
  "popName parts = (if parts = [] then None else Some (last parts))"

definition changeDirectory :: "string \<Rightarrow> VirtualFileSystem \<Rightarrow> unit vfs_result" where
  "changeDirectory path v =
     (let parts = normalizePathParts (cwdParts (state v)) path in
      case resolveFolder v parts of
        None \<Rightarrow> (Inl (CdNoSuch path), v)
      | Some folder \<Rightarrow> save (v\<lparr>state := (state v)\<lparr>cwdParts := parts\<rparr>\<rparr>))"

text \<open>
  \<^verbatim>\<open>mkdir(name)\<close>. The test \<^verbatim>\<open>/[\\/]/\<close> matches a backslash or a slash. With a
  \<^verbatim>\<open>cwdParts\<close> that resolves to no folder, \<^verbatim>\<open>cwd.folders\<close> is a TypeError.
\<close>

definition mkdir :: "string \<Rightarrow> VirtualFileSystem \<Rightarrow> unit vfs_result" where
  "mkdir nm v =
     (if nm = [] \<or> (\<exists>c \<in> set nm. c = backslash \<or> c = slash) then (Inl MkdirInvalidName, v)
      else case getCwdFolder v of
        None \<Rightarrow> (Inl TypeError, v)
      | Some cwd \<Rightarrow>
          if (\<exists>f \<in> set (folders cwd). fname f = nm) \<or> (\<exists>f \<in> set (files cwd). name f = Some nm)
          then (Inl (MkdirExists nm), v)
          else save (mutateFolder (cwdParts (state v))
                  (\<lambda>c. VfsFolder (fname c) (folders c @ [VfsFolder nm [] []]) (files c)) v))"

record listing =
  lfolders :: "string list"
  lfiles :: "string option list"

definition list :: "string \<Rightarrow> VirtualFileSystem \<Rightarrow> listing vfs_result" where
  "list path v =
     (case (if path = ''.'' then getCwdFolder v
            else resolveFolder v (normalizePathParts (cwdParts (state v)) path)) of
        None \<Rightarrow> (Inl (LsNoAccess path), v)
      | Some folder \<Rightarrow>
          (Inr \<lparr>lfolders = map fname (folders folder), lfiles = map name (files folder)\<rparr>, v))"

definition rmdir :: "string \<Rightarrow> VirtualFileSystem \<Rightarrow> unit vfs_result" where
  "rmdir nm v =
     (case getCwdFolder v of
        None \<Rightarrow> (Inl TypeError, v)
      | Some cwd \<Rightarrow>
          (case findIndex (\<lambda>f. fname f = nm) (folders cwd) of
             None \<Rightarrow> (Inl (RmdirNoSuch nm), v)
           | Some idx \<Rightarrow>
               (let folder = folders cwd ! idx in
                if folders folder \<noteq> [] \<or> files folder \<noteq> [] then (Inl (RmdirNotEmpty nm), v)
                else save (mutateFolder (cwdParts (state v))
                        (\<lambda>c. VfsFolder (fname c) (splice1 idx (folders c)) (files c)) v))))"

text \<open>
  \<^verbatim>\<open>_ensureFileParent(path)\<close> returns the parent, the name and the existing file; here the
  parent is given by its path and the existing file by its index in \<^verbatim>\<open>parent.files\<close>.
\<close>

definition ensureFileParent ::
  "string \<Rightarrow> VirtualFileSystem \<Rightarrow> vfs_error + (string list \<times> string option \<times> nat option)" where
  "ensureFileParent path v =
     (let parts = normalizePathParts (cwdParts (state v)) path;
          nm = popName parts;
          parts' = butlast parts in
      case resolveFolder v parts' of
        None \<Rightarrow> Inl (NoSuchDirectoryForPath path)
      | Some parent \<Rightarrow> Inr (parts', nm, findIndex (\<lambda>f. name f = nm) (files parent)))"

definition writeFile :: "string \<Rightarrow> string \<Rightarrow> VirtualFileSystem \<Rightarrow> unit vfs_result" where
  "writeFile path cont v =
     (case ensureFileParent path v of
        Inl e \<Rightarrow> (Inl e, v)
      | Inr (parent, nm, existingFile) \<Rightarrow>
          (case existingFile of
             Some idx \<Rightarrow>
               save (mutateFolder parent
                  (\<lambda>p. VfsFolder (fname p) (folders p)
                          ((files p)[idx := VfsFile (name (files p ! idx)) cont])) v)
           | None \<Rightarrow>
               save (mutateFolder parent
                  (\<lambda>p. VfsFolder (fname p) (folders p) (files p @ [VfsFile nm cont])) v)))"

text \<open>\<^verbatim>\<open>_getFile(path)\<close>: the file, or \<^const>\<open>None\<close> without a parent or without the file.\<close>

definition getFile :: "string \<Rightarrow> VirtualFileSystem \<Rightarrow> VfsFile option" where
  "getFile path v =
     (let parts = normalizePathParts (cwdParts (state v)) path;
          nm = popName parts;
          parts' = butlast parts in
      case resolveFolder v parts' of
        None \<Rightarrow> None
      | Some parent \<Rightarrow> find (\<lambda>f. name f = nm) (files parent))"

definition readFile :: "string \<Rightarrow> VirtualFileSystem \<Rightarrow> string vfs_result" where
  "readFile path v =
     (case getFile path v of
        None \<Rightarrow> (Inl (CatNoSuchFile path), v)
      | Some file \<Rightarrow> (Inr (content file), v))"

definition unlink :: "string \<Rightarrow> VirtualFileSystem \<Rightarrow> unit vfs_result" where
  "unlink path v =
     (let parts = normalizePathParts (cwdParts (state v)) path;
          nm = popName parts;
          parts' = butlast parts in
      case resolveFolder v parts' of
        None \<Rightarrow> (Inl (NoSuchFile path), v)
      | Some parent \<Rightarrow>
          (case findIndex (\<lambda>f. name f = nm) (files parent) of
             None \<Rightarrow> (Inl (NoSuchFile path), v)
           | Some idx \<Rightarrow>
               save (mutateFolder parts'
                  (\<lambda>p. VfsFolder (fname p) (folders p) (splice1 idx (files p))) v)))"

text \<open>A store freshly constructed over an empty storage that stores every value.\<close>

definition newVfs :: VirtualFileSystem where
  "newVfs = \<lparr>state = createDefaultState, storage = \<lparr>item = None, setItemCalls = 0, setItemThrows = (\<lambda>s. None)\<rparr>\<rparr>"

section \<open>Store operations as values\<close>

datatype vfs_op =
    ChangeDirectory string
  | Mkdir string
  | Rmdir string
  | WriteFile string string
  | ReadFile string
  | Unlink string

text \<open>One call of a store operation: the error it throws, if any, and the store afterwards.\<close>

fun applyOp :: "vfs_op \<Rightarrow> VirtualFileSystem \<Rightarrow> vfs_error option \<times> VirtualFileSystem" where
  "applyOp (ChangeDirectory p) v = (case changeDirectory p v of (r, v') \<Rightarrow> (case r of Inl e \<Rightarrow> Some e | Inr _ \<Rightarrow> None, v'))"
| "applyOp (Mkdir n) v = (case mkdir n v of (r, v') \<Rightarrow> (case r of Inl e \<Rightarrow> Some e | Inr _ \<Rightarrow> None, v'))"
| "applyOp (Rmdir n) v = (case rmdir n v of (r, v') \<Rightarrow> (case r of Inl e \<Rightarrow> Some e | Inr _ \<Rightarrow> None, v'))"
| "applyOp (WriteFile p c) v = (case writeFile p c v of (r, v') \<Rightarrow> (case r of Inl e \<Rightarrow> Some e | Inr _ \<Rightarrow> None, v'))"
| "applyOp (ReadFile p) v = (case readFile p v of (r, v') \<Rightarrow> (case r of Inl e \<Rightarrow> Some e | Inr _ \<Rightarrow> None, v'))"
| "applyOp (Unlink p) v = (case unlink p v of (r, v') \<Rightarrow> (case r of Inl e \<Rightarrow> Some e | Inr _ \<Rightarrow> None, v'))"


section \<open>The tree invariant of the data model\<close>

text \<open>
  A name is valid when it is present, not empty and has no path separator. Within a folder
  the folder names are pairwise different, and so are the file names; every name is valid;
  and the same holds in every subfolder. The root's own name is the root marker and is
  not constrained.
\<close>

definition validName :: "string \<Rightarrow> bool" where
  "validName nm \<longleftrightarrow> nm \<noteq> [] \<and> slash \<notin> set nm"

definition validFileName :: "string option \<Rightarrow> bool" where
  "validFileName nm = (case nm of None \<Rightarrow> False | Some s \<Rightarrow> validName s)"

fun treeInv :: "VfsFolder \<Rightarrow> bool" where
  "treeInv (VfsFolder n fs fl) \<longleftrightarrow>
     distinct (map fname fs) \<and> distinct (map name fl) \<and>
     list_all (\<lambda>f. validName (fname f)) fs \<and> list_all (\<lambda>f. validFileName (name f)) fl \<and>
     list_all treeInv fs"

definition stateInv :: "VirtualFileSystem \<Rightarrow> bool" where
  "stateInv v \<longleftrightarrow> treeInv (root (state v)) \<and> list_all validName (cwdParts (state v))"

text \<open>A sequence of store operations, each applied to the store the previous one left.\<close>

fun runOps :: "vfs_op list \<Rightarrow> VirtualFileSystem \<Rightarrow> VirtualFileSystem" where
  "runOps [] v = v"
| "runOps (op # ops) v = runOps ops (snd (applyOp op v))"

section \<open>The shell and its command handlers (programs/*.js)\<close>

text \<open>
  The shell as the dispatcher sees it: the store and the lines printed so far
  (\<^verbatim>\<open>shell.print\<close>).
\<close>

record shell =
  vfs :: VirtualFileSystem
  printed :: "string list"

definition print :: "string \<Rightarrow> shell \<Rightarrow> shell" where
  "print line sh = sh\<lparr>printed := printed sh @ [line]\<rparr>"

text \<open>The \<^verbatim>\<open>message\<close> of each error the store throws.\<close>

fun errorMessage :: "vfs_error \<Rightarrow> string" where
  "errorMessage (CdNoSuch p) = ''cd: no such file or directory: '' @ p"
| "errorMessage MkdirInvalidName = ''mkdir: folder name must be a simple name without path separators''"
| "errorMessage (MkdirExists n) = ''mkdir: cannot create directory '' @ [squote] @ n @ [squote] @ '': File exists''"
| "errorMessage (LsNoAccess p) = ''ls: cannot access '' @ [squote] @ p @ [squote] @ '': No such file or directory''"
| "errorMessage (RmdirNoSuch n) = ''rmdir: failed to remove '' @ [squote] @ n @ [squote] @ '': No such file or directory''"
| "errorMessage (RmdirNotEmpty n) = ''rmdir: failed to remove '' @ [squote] @ n @ [squote] @ '': Directory not empty''"
| "errorMessage (NoSuchDirectoryForPath p) = ''No such directory for path: '' @ p"
| "errorMessage (CatNoSuchFile p) = ''cat: '' @ p @ '': No such file''"
| "errorMessage (NoSuchFile p) = ''No such file: '' @ p"
| "errorMessage TypeError = ''Cannot read properties of null''"
| "errorMessage (SetItemThrew msg) = msg"

text \<open>\<^verbatim>\<open>toLowerCase\<close> on code units below 256: A-Z, and the Latin-1 capitals other than U+00D7.\<close>

definition toLowerChar :: "char \<Rightarrow> char" where
  "toLowerChar c =
     (let n = (of_char c :: nat) in
      if (65 \<le> n \<and> n \<le> 90) \<or> (192 \<le> n \<and> n \<le> 222 \<and> n \<noteq> 215) then char_of (n + 32) else c)"

definition toLowerCase :: "string \<Rightarrow> string" where
  "toLowerCase s = map toLowerChar s"

text \<open>
  What a handler returns: \<^verbatim>\<open>{ handled, shouldContinue, ok?, error? }\<close>, with \<^const>\<open>None\<close> for a
  field that is absent. An error is kept as its message. A handler may also return a falsy
  value (\<open>Returned None\<close>) or throw.
\<close>

record handlerResult =
  handled :: bool
  shouldContinue :: "bool option"
  ok :: "bool option"
  error :: "string option"

datatype outcome = Returned "handlerResult option" | Threw string

type_synonym handler = "shell \<Rightarrow> string \<Rightarrow> string list \<Rightarrow> outcome \<times> shell"

definition notHandled :: outcome where
  "notHandled = Returned (Some \<lparr>handled = False, shouldContinue = Some True, ok = None, error = None\<rparr>)"

definition handledOk :: outcome where
  "handledOk = Returned (Some \<lparr>handled = True, shouldContinue = Some True, ok = Some True, error = None\<rparr>)"

definition handledFailed :: "string \<Rightarrow> outcome" where
  "handledFailed msg =
     Returned (Some \<lparr>handled = True, shouldContinue = Some True, ok = Some False, error = Some msg\<rparr>)"

text \<open>
  A handler whose body is not modelled (help, cls, date, ls, find, grep, pwd, cat, rm, print,
  copy, delay, mv, init, download, upload): each returns
  \<^verbatim>\<open>{ handled: false, shouldContinue: true }\<close> unless the lower-cased command is its name; what it
  does for its own name is the parameter \<open>body\<close>.
\<close>

definition gated :: "string \<Rightarrow> handler \<Rightarrow> handler" where
  "gated nm body sh cmd as =
     (if toLowerCase cmd \<noteq> nm then (notHandled, sh) else body sh cmd as)"

text \<open>
  backup.js, restore.js and config.js compare the command as it is typed
  (\<^verbatim>\<open>command !== 'config'\<close>), without lower-casing it; their bodies are not modelled either.
\<close>

definition gatedExact :: "string \<Rightarrow> handler \<Rightarrow> handler" where
  "gatedExact nm body sh cmd as =
     (if cmd \<noteq> nm then (notHandled, sh) else body sh cmd as)"

text \<open>programs/exit.js.\<close>

definition executeExitCommand :: handler where
  "executeExitCommand sh cmd as =
     (if toLowerCase cmd \<noteq> ''exit'' then (notHandled, sh)
      else (Returned (Some \<lparr>handled = True, shouldContinue = Some False, ok = None, error = None\<rparr>),
            print ''Bye...'' sh))"

text \<open>programs/cd.js: \<^verbatim>\<open>args[0] || '/'\<close>, then \<^verbatim>\<open>vfs.changeDirectory\<close>.\<close>

definition executeCdCommand :: handler where
  "executeCdCommand sh cmd as =
     (if toLowerCase cmd \<noteq> ''cd'' then (notHandled, sh)
      else
        let target = (case as of [] \<Rightarrow> ''/'' | a # _ \<Rightarrow> if a = [] then ''/'' else a) in
        case changeDirectory target (vfs sh) of
          (Inl err, v) \<Rightarrow>
            (handledFailed (errorMessage err), print [] (print (errorMessage err) (sh\<lparr>vfs := v\<rparr>)))
        | (Inr u, v) \<Rightarrow> (handledOk, sh\<lparr>vfs := v\<rparr>))"

text \<open>
  The loop \<^verbatim>\<open>for (const name of args) { try { vfs.op(name) } catch (err) { hadError = true; print } }\<close>
  shared by rmdir.js and cat.js: the shell afterwards and whether an error occurred.
\<close>

fun forEachArg :: "(string \<Rightarrow> shell \<Rightarrow> vfs_error option \<times> shell) \<Rightarrow> string list \<Rightarrow> shell \<Rightarrow> bool \<times> shell" where
  "forEachArg f [] sh = (False, sh)"
| "forEachArg f (a # as) sh =
     (case f a sh of
        (Some err, sh1) \<Rightarrow> (case forEachArg f as (print (errorMessage err) sh1) of (e, sh2) \<Rightarrow> (True, sh2))
      | (None, sh1) \<Rightarrow> forEachArg f as sh1)"

text \<open>programs/rmdir.js.\<close>

definition executeRmdirCommand :: handler where
  "executeRmdirCommand sh cmd as =
     (if toLowerCase cmd \<noteq> ''rmdir'' then (notHandled, sh)
      else if as = [] then
        (handledFailed ''rmdir: missing operand'', print [] (print ''rmdir: missing operand'' sh))
      else
        case forEachArg (\<lambda>nm s. case rmdir nm (vfs s) of (r, v) \<Rightarrow>
                 (case r of Inl e \<Rightarrow> Some e | Inr u \<Rightarrow> None, s\<lparr>vfs := v\<rparr>)) as sh of
          (hadError, sh1) \<Rightarrow>
            (if hadError then handledFailed ''rmdir: one or more operations failed'' else handledOk,
             print [] sh1))"

text \<open>
  Modelled from the spec: programs/mkdir.js (\<^verbatim>\<open>executeMkdirCommand\<close>) is not among the sources.
  The spec gives the store operation \<^verbatim>\<open>mkdir(name)\<close> and the handler contract
  \<^verbatim>\<open>{handled, shouldContinue, ok, error}\<close>; the handler is taken to have the shape of its sibling
  rmdir.js: it creates each argument with \<^verbatim>\<open>vfs.mkdir\<close>, prints the message of each failure
  and reports \<^verbatim>\<open>ok: false\<close> if any failed.
\<close>

definition executeMkdirCommand :: handler where
  "executeMkdirCommand sh cmd as =
     (if toLowerCase cmd \<noteq> ''mkdir'' then (notHandled, sh)
      else if as = [] then
        (handledFailed ''mkdir: missing operand'', print [] (print ''mkdir: missing operand'' sh))
      else
        case forEachArg (\<lambda>nm s. case mkdir nm (vfs s) of (r, v) \<Rightarrow>
                 (case r of Inl e \<Rightarrow> Some e | Inr u \<Rightarrow> None, s\<lparr>vfs := v\<rparr>)) as sh of
          (hadError, sh1) \<Rightarrow>
            (if hadError then handledFailed ''mkdir: one or more operations failed'' else handledOk,
             print [] sh1))"

text \<open>
  programs/touch.js: \<^verbatim>\<open>touch\<close> reads the file (empty content if that fails) and writes it
  back with \<^verbatim>\<open>vfs.writeFile(path, content)\<close>.
\<close>

definition executeTouchCommand :: handler where
  "executeTouchCommand sh cmd as =
     (if toLowerCase cmd \<noteq> ''touch'' then (notHandled, sh)
      else if as = [] then
        (handledFailed ''touch: missing operand'',
         print [] (print (''Try '' @ [squote] @ ''touch filename'' @ [squote]) (print ''touch: missing file operand'' sh)))
      else
        case forEachArg (\<lambda>path s.
                 let cont = (case fst (readFile path (vfs s)) of Inl e \<Rightarrow> [] | Inr c \<Rightarrow> c) in
                 case writeFile path cont (vfs s) of (r, v) \<Rightarrow>
                   (case r of Inl e \<Rightarrow> Some e | Inr u \<Rightarrow> None, s\<lparr>vfs := v\<rparr>)) as sh of
          (hadError, sh1) \<Rightarrow>
            (if hadError then handledFailed ''touch: one or more operations failed'' else handledOk,
             print [] sh1))"

text \<open>
  programs/runScript.js. \<^verbatim>\<open>runSource\<close> evaluates the script text with \<^verbatim>\<open>new Function\<close>; it
  is a parameter: given the shell, the \<^verbatim>\<open>command\<close> string the script sees, its arguments and
  its source, it returns \<^verbatim>\<open>{ ok, error }\<close> and the shell afterwards.
\<close>

type_synonym runner = "shell \<Rightarrow> string \<Rightarrow> string list \<Rightarrow> string \<Rightarrow> (bool \<times> string option) \<times> shell"

definition executeVfsScript :: "runner \<Rightarrow> shell \<Rightarrow> string \<Rightarrow> string list \<Rightarrow> string \<Rightarrow> outcome \<times> shell" where
  "executeVfsScript runSource sh scriptPath as invokedAs =
     (case readFile scriptPath (vfs sh) of
        (Inl err, v) \<Rightarrow>
          (handledFailed (errorMessage err),
           print [] (print (''exec: '' @ scriptPath @ '': '' @ errorMessage err) sh))
      | (Inr source, v) \<Rightarrow>
          (let cmd = (if invokedAs = [] then scriptPath else invokedAs) in
           case runSource sh cmd as source of
             ((rok, rerr), sh1) \<Rightarrow>
               (Returned (Some \<lparr>handled = True, shouldContinue = Some True, ok = Some rok, error = rerr\<rparr>),
                print [] sh1)))"

definition executeScriptFile :: "runner \<Rightarrow> handler" where
  "executeScriptFile runSource sh cmd as =
     (if cmd = [] \<or> \<not> startsWith cmd ''./'' \<or> \<not> endsWith cmd ''.js'' then (notHandled, sh)
      else
        let canonicalPath = normalizePathFromCwd (getCwdPath (vfs sh)) (drop 2 cmd) in
        case readFile canonicalPath (vfs sh) of
          (Inl err, v) \<Rightarrow>
            (handledFailed (errorMessage err),
             print [] (print (''exec: '' @ cmd @ '': '' @ errorMessage err) sh))
        | (Inr source, v) \<Rightarrow>
            (case runSource sh cmd as source of
               ((rok, rerr), sh1) \<Rightarrow>
                 (Returned (Some \<lparr>handled = True, shouldContinue = Some True, ok = Some rok, error = rerr\<rparr>),
                  print [] sh1)))"

section \<open>The dispatcher (jsShellHolder.js)\<close>

text \<open>
  \<^verbatim>\<open>commandModules\<close> in registration order. \<open>ext\<close> gives the bodies that are not modelled, by
  command name.
\<close>

definition commandModules :: "(string \<Rightarrow> handler) \<Rightarrow> runner \<Rightarrow> handler list" where
  "commandModules ext runSource =
     [gated ''help'' (ext ''help''), gated ''cls'' (ext ''cls''), executeExitCommand,
      gated ''date'' (ext ''date''), executeMkdirCommand, gated ''ls'' (ext ''ls''),
      gated ''find'' (ext ''find''), gated ''grep'' (ext ''grep''), executeRmdirCommand,
      executeCdCommand, gated ''pwd'' (ext ''pwd''), gated ''cat'' (ext ''cat''),
      executeTouchCommand, gated ''rm'' (ext ''rm''), gated ''print'' (ext ''print''),
      gated ''copy'' (ext ''copy''), gated ''delay'' (ext ''delay''), gated ''mv'' (ext ''mv''),
      executeScriptFile runSource, gated ''init'' (ext ''init''), gatedExact ''backup'' (ext ''backup''),
      gatedExact ''restore'' (ext ''restore''), gated ''download'' (ext ''download''),
      gated ''upload'' (ext ''upload''), gatedExact ''config'' (ext ''config'')]"

text \<open>\<^verbatim>\<open>parseSimpleCommandLine(line)\<close>: blank lines and comments give the empty command.\<close>

definition parseSimpleCommandLine :: "string \<Rightarrow> parsedLine" where
  "parseSimpleCommandLine line =
     (let trimmed = trim line in
      if trimmed = [] then \<lparr>command = [], args = []\<rparr>
      else if startsWith trimmed ''#'' \<or> startsWith trimmed ''//'' then \<lparr>command = [], args = []\<rparr>
      else parseCommandLine trimmed)"

record dispatchResult =
  dhandled :: bool
  dshouldContinue :: bool
  dok :: "bool option"
  derror :: "string option"

text \<open>
  \<^verbatim>\<open>dispatchRegisteredModules\<close>: the first handler that reports \<^verbatim>\<open>handled\<close> wins. A handler
  that throws ends the loop with the exception (\<^const>\<open>Inl\<close>). The refresh of the completion
  list after \<^verbatim>\<open>init\<close> touches neither the store nor the printed lines.
\<close>

fun dispatchRegisteredModules ::
  "handler list \<Rightarrow> shell \<Rightarrow> string \<Rightarrow> string list \<Rightarrow> (string + dispatchResult) \<times> shell" where
  "dispatchRegisteredModules [] sh cmd as =
     (Inr \<lparr>dhandled = False, dshouldContinue = True, dok = None, derror = None\<rparr>, sh)"
| "dispatchRegisteredModules (h # hs) sh cmd as =
     (case h sh cmd as of
        (Threw msg, sh1) \<Rightarrow> (Inl msg, sh1)
      | (Returned None, sh1) \<Rightarrow> dispatchRegisteredModules hs sh1 cmd as
      | (Returned (Some r), sh1) \<Rightarrow>
          if handled r then
            (Inr \<lparr>dhandled = True, dshouldContinue = (shouldContinue r \<noteq> Some False),
                  dok = Some (case ok r of Some b \<Rightarrow> b | None \<Rightarrow> True), derror = error r\<rparr>, sh1)
          else dispatchRegisteredModules hs sh1 cmd as)"

record strictResult =
  sok :: bool
  shandled :: bool
  sshouldContinue :: bool
  serror :: "string option"

definition dispatchStrict :: "handler list \<Rightarrow> shell \<Rightarrow> string \<Rightarrow> string list \<Rightarrow> strictResult \<times> shell" where
  "dispatchStrict mods sh cmd as =
     (if cmd = [] then (\<lparr>sok = True, shandled = True, sshouldContinue = True, serror = None\<rparr>, sh)
      else
        case dispatchRegisteredModules mods sh cmd as of
          (Inl err, sh1) \<Rightarrow>
            (\<lparr>sok = False, shandled = True, sshouldContinue = True, serror = Some err\<rparr>, sh1)
        | (Inr result, sh1) \<Rightarrow>
            if \<not> dhandled result then
              (\<lparr>sok = False, shandled = False, sshouldContinue = True,
                serror = Some (''Command not found: '' @ cmd)\<rparr>, sh1)
            else if dok result = Some False then
              (\<lparr>sok = False, shandled = True, sshouldContinue = True,
                serror = Some (case derror result of Some e \<Rightarrow> e
                               | None \<Rightarrow> ''Execution failed: '' @ cmd)\<rparr>, sh1)
            else
              (\<lparr>sok = True, shandled = True, sshouldContinue = dshouldContinue result,
                serror = None\<rparr>, sh1))"

text \<open>Decimal digits of a number, for \<^verbatim>\<open>${i + 1}\<close>.\<close>

fun showNat :: "nat \<Rightarrow> string" where
  "showNat n = (if n < 10 then [char_of (48 + n)] else showNat (n div 10) @ [char_of (48 + n mod 10)])"

text \<open>
  \<^verbatim>\<open>String((r.error && r.error.message) || r.error || 'error')\<close>: an Error with an empty
  message prints as \<^verbatim>\<open>Error\<close>.
\<close>

definition errorText :: "string option \<Rightarrow> string" where
  "errorText e = (case e of None \<Rightarrow> ''error'' | Some m \<Rightarrow> if m = [] then ''Error'' else m)"

text \<open>\<^verbatim>\<open>content.split(/\r?\n/)\<close>: a carriage return just before the line feed is dropped.\<close>

fun dropCr :: "string list \<Rightarrow> string list" where
  "dropCr [] = []"
| "dropCr [l] = [l]"
| "dropCr (l # m # ls) = (if l \<noteq> [] \<and> last l = CHR 0x0D then butlast l else l) # dropCr (m # ls)"

definition splitLines :: "string \<Rightarrow> string list" where
  "splitLines s = dropCr (splitOn (CHR 0x0A) s)"

record scriptResult =
  rhandled :: bool
  rshouldContinue :: bool

text \<open>
  The loop of \<^verbatim>\<open>runJshScript\<close> over \<^verbatim>\<open>lines\<close>, from index \<open>i\<close> on: the lines that are left are
  the third argument.
\<close>

fun runJshLines :: "handler list \<Rightarrow> string \<Rightarrow> nat \<Rightarrow> string list \<Rightarrow> shell \<Rightarrow> scriptResult \<times> shell" where
  "runJshLines mods invokedAs i [] sh = (\<lparr>rhandled = True, rshouldContinue = True\<rparr>, sh)"
| "runJshLines mods invokedAs i (rawLine # rest) sh =
     (let parsed = parseSimpleCommandLine rawLine in
      if command parsed = [] then runJshLines mods invokedAs (i + 1) rest sh
      else
        case dispatchStrict mods sh (command parsed) (args parsed) of
          (r, sh1) \<Rightarrow>
            if \<not> sok r then
              (\<lparr>rhandled = True, rshouldContinue = True\<rparr>,
               print [] (print (''jsh: '' @ errorText (serror r))
                 (print (''jsh: '' @ rawLine)
                   (print (''jsh: stopped at '' @ invokedAs @ '':'' @ showNat (i + 1)) sh1))))
            else if \<not> sshouldContinue r then (\<lparr>rhandled = True, rshouldContinue = False\<rparr>, sh1)
            else runJshLines mods invokedAs (i + 1) rest sh1)"

definition runJshScript :: "handler list \<Rightarrow> shell \<Rightarrow> string \<Rightarrow> scriptResult \<times> shell" where
  "runJshScript mods sh invokedAs =
     (let cwdPath = getCwdPath (vfs sh);
          scriptRel = drop 2 invokedAs;
          canonicalPath = normalizePathFromCwd cwdPath scriptRel in
      case readFile canonicalPath (vfs sh) of
        (Inl err, v) \<Rightarrow>
          (\<lparr>rhandled = True, rshouldContinue = True\<rparr>,
           print [] (print (''exec: '' @ invokedAs @ '': '' @ errorMessage err) sh))
      | (Inr cont, v) \<Rightarrow> runJshLines mods invokedAs 0 (splitLines cont) sh)"

section \<open>Aliases and the PATH fallback (jsShellHolder.js)\<close>

text \<open>
  An entry of \<^verbatim>\<open>env.PATH\<close> is any JSON value; only strings matter. \<^verbatim>\<open>env.ALIAS\<close> maps a
  command to its expansion where the property is a string, and to \<^const>\<open>None\<close> otherwise.
\<close>

datatype jsval = JString string | JOther

record env =
  PATH :: "jsval list"
  ALIAS :: "string \<Rightarrow> string option"

text \<open>
  \<^verbatim>\<open>expandAliasesOnce\<close>. The third component tells whether the returned \<^verbatim>\<open>args\<close> is the very
  array that was passed in: the caller compares with \<^verbatim>\<open>===\<close>, and \<^verbatim>\<open>concat\<close> always makes a
  new array.
\<close>

definition expandAliasesOnce :: "(string \<Rightarrow> string option) \<Rightarrow> string \<Rightarrow> string list \<Rightarrow> string \<times> string list \<times> bool" where
  "expandAliasesOnce alias cmd as =
     (case alias cmd of
        None \<Rightarrow> (cmd, as, True)
      | Some target \<Rightarrow>
          if trim target = [] then (cmd, as, True)
          else
            let parsed = parseCommandLine (trim target);
                nextCommand = (if command parsed = [] then cmd else command parsed);
                nextArgs = args parsed @ as
            in (nextCommand, nextArgs, False))"

text \<open>
  The loop \<^verbatim>\<open>for (let i = 0; i < maxDepth; i += 1)\<close> of \<^verbatim>\<open>expandAliases\<close>, with the set
  \<^verbatim>\<open>seen\<close> as the list of its members. \<^const>\<open>None\<close> stands for a loop that does not return.
\<close>

partial_function (option) expandLoop ::
  "(string \<Rightarrow> string option) \<Rightarrow> nat \<Rightarrow> nat \<Rightarrow> string list \<Rightarrow> string \<Rightarrow> string list \<Rightarrow> (string \<times> string list) option" where
  "expandLoop alias maxDepth i seen currentCommand currentArgs =
     (if i < maxDepth then
        (if currentCommand \<in> set seen then Some (currentCommand, currentArgs)
         else
           let expanded = expandAliasesOnce alias currentCommand currentArgs in
           if fst expanded = currentCommand \<and> snd (snd expanded) then Some (currentCommand, currentArgs)
           else expandLoop alias maxDepth (i + 1) (seen @ [currentCommand])
                  (fst expanded) (fst (snd expanded)))
      else Some (currentCommand, currentArgs))"

definition expandAliases :: "(string \<Rightarrow> string option) \<Rightarrow> string \<Rightarrow> string list \<Rightarrow> nat \<Rightarrow> (string \<times> string list) option" where
  "expandAliases alias cmd as maxDepth = expandLoop alias maxDepth 0 [] cmd as"

text \<open>\<^verbatim>\<open>joinVfsPath(dir, file)\<close>: trailing slashes of \<^verbatim>\<open>dir\<close> and leading slashes of \<^verbatim>\<open>file\<close> go.\<close>

definition joinVfsPath :: "string \<Rightarrow> string \<Rightarrow> string" where
  "joinVfsPath dir file =
     rev (dropWhile (\<lambda>c. c = slash) (rev dir)) @ ''/'' @ dropWhile (\<lambda>c. c = slash) file"

text \<open>The loop over \<^verbatim>\<open>env.PATH\<close> in \<^verbatim>\<open>resolveScriptOnPath\<close>; a \<^verbatim>\<open>vfs.list\<close> that throws is ignored.\<close>

fun searchPath :: "jsval list \<Rightarrow> string \<Rightarrow> VirtualFileSystem \<Rightarrow> string option" where
  "searchPath [] fileName v = None"
| "searchPath (JOther # dirs) fileName v = searchPath dirs fileName v"
| "searchPath (JString dir # dirs) fileName v =
     (if \<not> startsWith dir ''/'' then searchPath dirs fileName v
      else
        case fst (list dir v) of
          Inl err \<Rightarrow> searchPath dirs fileName v
        | Inr listing \<Rightarrow>
            if Some fileName \<in> set (lfiles listing) then Some (joinVfsPath dir fileName)
            else searchPath dirs fileName v)"

definition resolveScriptOnPath :: "env \<Rightarrow> VirtualFileSystem \<Rightarrow> string \<Rightarrow> string option" where
  "resolveScriptOnPath e v commandName =
     (if commandName = [] then None
      else if slash \<in> set commandName then None
      else
        let fileName = (if endsWith commandName ''.js'' then commandName else commandName @ ''.js'')
        in searchPath (PATH e) fileName v)"

text \<open>
  The handler loop of \<^verbatim>\<open>mainLoop\<close>: the first handler that reports \<^verbatim>\<open>handled\<close> ends it. The
  result is \<^verbatim>\<open>(handled, shouldContinue)\<close>, or the exception of a handler that threw.
\<close>

fun runHandlers :: "handler list \<Rightarrow> shell \<Rightarrow> string \<Rightarrow> string list \<Rightarrow> (string + bool \<times> bool) \<times> shell" where
  "runHandlers [] sh cmd as = (Inr (False, True), sh)"
| "runHandlers (h # hs) sh cmd as =
     (case h sh cmd as of
        (Threw msg, sh1) \<Rightarrow> (Inl msg, sh1)
      | (Returned None, sh1) \<Rightarrow> runHandlers hs sh1 cmd as
      | (Returned (Some r), sh1) \<Rightarrow>
          if handled r then (Inr (True, shouldContinue r \<noteq> Some False), sh1)
          else runHandlers hs sh1 cmd as)"

text \<open>
  The PATH fallback and the not-found message of \<^verbatim>\<open>mainLoop\<close>, entered with the flags the
  handler loop left: the shell afterwards and \<^verbatim>\<open>shouldContinue\<close>.
\<close>

definition pathFallback :: "env \<Rightarrow> runner \<Rightarrow> bool \<Rightarrow> bool \<Rightarrow> string \<Rightarrow> string list \<Rightarrow> shell \<Rightarrow> bool \<times> shell" where
  "pathFallback e runSource handled0 shouldContinue0 cmd as sh =
     (let (handled1, shouldContinue1, sh1) =
            (if \<not> handled0 \<and> cmd \<noteq> [] then
               (case resolveScriptOnPath e (vfs sh) cmd of
                  None \<Rightarrow> (handled0, shouldContinue0, sh)
                | Some scriptPath \<Rightarrow>
                    (case executeVfsScript runSource sh scriptPath as cmd of
                       (Returned (Some r), sh') \<Rightarrow>
                         if handled r then (True, shouldContinue r \<noteq> Some False, sh')
                         else (handled0, shouldContinue0, sh')
                     | (other, sh') \<Rightarrow> (handled0, shouldContinue0, sh')))
             else (handled0, shouldContinue0, sh))
      in if \<not> handled1 \<and> cmd \<noteq> [] then
           (shouldContinue1,
            print [] (print ''Hit Tab for available commands.'' (print (''Command not found: '' @ cmd) sh1)))
         else (shouldContinue1, sh1))"

text \<open>
  One round of the \<^verbatim>\<open>while (true)\<close> loop of \<^verbatim>\<open>mainLoop\<close>, from the input line on: whether the
  loop goes on, and the shell afterwards. \<open>recordHistory\<close> is the effect of the history block
  on the shell (it writes /sys/history.json through the store). The resets of the completion
  and search state touch neither the store nor the printed lines. The result is \<^const>\<open>None\<close> if
  the alias expansion does not return.
\<close>

definition mainLoopStep ::
  "env \<Rightarrow> handler list \<Rightarrow> runner \<Rightarrow> (string \<Rightarrow> shell \<Rightarrow> shell) \<Rightarrow> string \<Rightarrow> shell \<Rightarrow> (bool \<times> shell) option" where
  "mainLoopStep e mods runSource recordHistory input sh0 =
     (let trimmedInput = trim input;
          parsedInput = parseCommandLine trimmedInput in
      case expandAliases (ALIAS e) (command parsedInput) (args parsedInput) 5 of
        None \<Rightarrow> None
      | Some (cmd, as) \<Rightarrow>
          (let sh = (if trimmedInput \<noteq> [] then recordHistory trimmedInput sh0 else sh0) in
           if trimmedInput = [] then Some (True, sh)
           else if startsWith cmd ''./'' \<and> endsWith cmd ''.jsh'' then
             (case runJshScript mods sh cmd of (res, sh1) \<Rightarrow> Some (rshouldContinue res, sh1))
           else
             (case runHandlers mods sh cmd as of
                (Inl msg, sh1) \<Rightarrow> Some (True, print [] (print (''Error: '' @ msg) sh1))
              | (Inr (handled0, shouldContinue0), sh1) \<Rightarrow>
                  Some (pathFallback e runSource handled0 shouldContinue0 cmd as sh1))))"

section \<open>Tab completion (jsShellExtended.js)\<close>

text \<open>
  \<^verbatim>\<open>quoteArgIfNeeded(value, preferredQuote)\<close> of commandLine.js: the test is
  \<^verbatim>\<open>/\s|"|'|\\/\<close>; backslashes are doubled first, then the quote character is escaped.
\<close>

definition escapeChar :: "char \<Rightarrow> string \<Rightarrow> string" where
  "escapeChar q s = concat (map (\<lambda>c. if c = q then [backslash, c] else [c]) s)"

definition quoteArgIfNeeded :: "string \<Rightarrow> char \<Rightarrow> string" where
  "quoteArgIfNeeded v preferredQuote =
     (let needs = list_ex (\<lambda>c. jsSpace c \<or> c = dquote \<or> c = squote \<or> c = backslash) v in
      if \<not> needs then v
      else
        let q = (if preferredQuote = squote then squote else dquote);
            escaped = escapeChar q (escapeChar backslash v)
        in [q] @ escaped @ [q])"

text \<open>
  A candidate of a path session, \<^verbatim>\<open>{ name, isFolder }\<close>, and a completion session. The
  \<^verbatim>\<open>type\<close> of a session and the fields that go with it are one value: a command session has
  command names as items; a path session has candidates and the parts of the input around
  the word.
\<close>

record candidate =
  cname :: string
  isFolder :: bool

datatype sessionBody =
    CommandSession "string list"
  | PathSession "candidate list" string string string "char option"

record session =
  active :: bool
  body :: sessionBody
  index :: nat
  lastInput :: string

text \<open>
  A hint is kept as what it shows, not as HTML: the candidates with the marked index, one of
  the two no-match signals, a completion error, the suggested names of the \<^verbatim>\<open>hello\<close> example,
  or the history search hint.
\<close>

datatype hint =
    CandidateHint "string list" nat
  | NoCommandsHint
  | NoFilesHint
  | CompletionErrorHint string
  | SuggestedNamesHint "string list"
  | SearchHint

text \<open>
  The shared \<^verbatim>\<open>state\<close> object of jsShellHolder.js, with the hint that is shown and the lines
  the key handler prints.
\<close>

record uiState =
  historyIndex :: int
  searchMode :: bool
  searchQuery :: string
  completionSession :: "session option"
  shownHint :: "hint option"
  uiPrinted :: "string list"

record keyEvent =
  code :: string
  key :: string
  ctrlKey :: bool
  altKey :: bool
  shiftKey :: bool
  currentInput :: string

text \<open>What the key handler returns: a string (the new input), \<^verbatim>\<open>true\<close> or \<^verbatim>\<open>false\<close>.\<close>

datatype keyResult = NewInput string | Handled | Default

definition itemCount :: "sessionBody \<Rightarrow> nat" where
  "itemCount b = (case b of CommandSession cs \<Rightarrow> length cs | PathSession ms bw aw dp qc \<Rightarrow> length ms)"

definition displayName :: "candidate \<Rightarrow> string" where
  "displayName m = cname m @ (if isFolder m then ''/'' else [])"

text \<open>
  \<^verbatim>\<open>_cycleCompletionSession\<close>: \<^const>\<open>None\<close> is the \<^verbatim>\<open>null\<close> it returns when there is nothing to
  cycle. The new index is \<^verbatim>\<open>(index + delta + len) % len\<close> with \<^verbatim>\<open>delta\<close> 1 or -1.
\<close>

definition cycleCompletionSession :: "keyEvent \<Rightarrow> int \<Rightarrow> uiState \<Rightarrow> string option \<times> uiState" where
  "cycleCompletionSession ev direction st =
     (case completionSession st of
        None \<Rightarrow> (None, st)
      | Some s \<Rightarrow>
          if \<not> active s \<or> itemCount (body s) \<le> 1 \<or> currentInput ev \<noteq> lastInput s then (None, st)
          else
            let len = itemCount (body s);
                delta = (if direction = -1 then -1 else 1 :: int);
                idx = nat ((int (index s) + delta + int len) mod int len)
            in case body s of
                 CommandSession cs \<Rightarrow>
                   (let newInput = cs ! idx @ '' '' in
                    (Some newInput,
                     st\<lparr>completionSession := Some (s\<lparr>index := idx, lastInput := newInput\<rparr>),
                        shownHint := Some (CandidateHint cs idx)\<rparr>))
               | PathSession ms beforeWord afterWord dirPart qc \<Rightarrow>
                   (let m = ms ! idx;
                        completedValue = dirPart @ displayName m;
                        preferredQuote = (case qc of None \<Rightarrow> dquote | Some q \<Rightarrow> q);
                        completedRaw = quoteArgIfNeeded completedValue preferredQuote;
                        newInput = beforeWord @ completedRaw @ afterWord
                    in (Some newInput,
                        st\<lparr>completionSession := Some (s\<lparr>index := idx, lastInput := newInput\<rparr>),
                           shownHint := Some (CandidateHint (map displayName ms) idx)\<rparr>)))"

text \<open>
  \<^verbatim>\<open>Array.from(new Set(xs))\<close> keeps the first occurrence of each element.
  \<^verbatim>\<open>xs.sort((a, b) => a.localeCompare(b))\<close> is a stable sort; the locale's order is the
  parameter \<open>le\<close> (\<open>le a b\<close> when \<^verbatim>\<open>a.localeCompare(b) <= 0\<close>).
\<close>

fun uniqueFirst :: "'a list \<Rightarrow> 'a list \<Rightarrow> 'a list" where
  "uniqueFirst seen [] = []"
| "uniqueFirst seen (x # xs) = (if x \<in> set seen then uniqueFirst seen xs else x # uniqueFirst (seen @ [x]) xs)"

fun insertBy :: "('a \<Rightarrow> 'a \<Rightarrow> bool) \<Rightarrow> 'a \<Rightarrow> 'a list \<Rightarrow> 'a list" where
  "insertBy le x [] = [x]"
| "insertBy le x (y # ys) = (if le x y then x # y # ys else y # insertBy le x ys)"

definition sortBy :: "('a \<Rightarrow> 'a \<Rightarrow> bool) \<Rightarrow> 'a list \<Rightarrow> 'a list" where
  "sortBy le xs = foldr (insertBy le) xs []"

text \<open>
  \<^verbatim>\<open>_startCommandCompletionSession\<close>. \<open>pathCommands\<close> is what \<^verbatim>\<open>_getPathScriptCommands()\<close>
  returns (the script names found on the path, read through a one-second cache).
\<close>

definition startCommandCompletionSession ::
  "(string \<Rightarrow> string \<Rightarrow> bool) \<Rightarrow> string list \<Rightarrow> string list \<Rightarrow> string \<Rightarrow> uiState \<Rightarrow> string \<times> uiState" where
  "startCommandCompletionSession le commands pathCommands currentWord st =
     (let allCommands = sortBy le (uniqueFirst [] (commands @ pathCommands));
          matches = filter (\<lambda>cmd. startsWith cmd currentWord) allCommands
      in if length matches = 1 then
           (hd matches @ '' '', st\<lparr>completionSession := None, shownHint := None\<rparr>)
         else if length matches > 1 then
           (let newInput = hd matches @ '' '' in
            (newInput,
             st\<lparr>completionSession :=
                   Some \<lparr>active = True, body = CommandSession matches, index = 0, lastInput = newInput\<rparr>,
                shownHint := Some (CandidateHint matches 0)\<rparr>))
         else (currentWord, st\<lparr>completionSession := None, shownHint := Some NoCommandsHint\<rparr>))"

text \<open>\<^verbatim>\<open>s.lastIndexOf('/')\<close>, with \<^const>\<open>None\<close> for \<^verbatim>\<open>-1\<close>.\<close>

definition lastSlashIndex :: "string \<Rightarrow> nat option" where
  "lastSlashIndex s =
     (case findIndex (\<lambda>c. c = slash) (rev s) of None \<Rightarrow> None | Some k \<Rightarrow> Some (length s - 1 - k))"

text \<open>
  \<^verbatim>\<open>_startPathCompletionSession\<close>. Everything runs in a \<^verbatim>\<open>try\<close>: a listing that fails, and a
  file without a name (\<^verbatim>\<open>c.name.startsWith\<close> on \<^verbatim>\<open>undefined\<close>), end in the \<^verbatim>\<open>catch\<close> branch.
\<close>

definition startPathCompletionSession ::
  "VirtualFileSystem \<Rightarrow> string \<Rightarrow> string \<Rightarrow> nat \<Rightarrow> nat \<Rightarrow> char option \<Rightarrow> uiState \<Rightarrow> string \<times> uiState" where
  "startPathCompletionSession v input currentWord rawS rawE currentQuote st =
     (let dirPart = (case lastSlashIndex currentWord of None \<Rightarrow> [] | Some k \<Rightarrow> take (k + 1) currentWord);
          namePart = (case lastSlashIndex currentWord of None \<Rightarrow> currentWord | Some k \<Rightarrow> drop (k + 1) currentWord);
          listTarget = (if dirPart \<noteq> [] then (if butlast dirPart = [] then ''/'' else butlast dirPart) else ''.'')
      in case fst (list listTarget v) of
           Inl err \<Rightarrow>
             (input, st\<lparr>completionSession := None, shownHint := Some (CompletionErrorHint (errorMessage err))\<rparr>)
         | Inr l \<Rightarrow>
             if None \<in> set (lfiles l) then
               (input, st\<lparr>completionSession := None,
                         shownHint := Some (CompletionErrorHint ''Cannot read properties of undefined'')\<rparr>)
             else
               let candidates = map (\<lambda>n. \<lparr>cname = n, isFolder = True\<rparr>) (lfolders l) @
                                map (\<lambda>n. \<lparr>cname = the n, isFolder = False\<rparr>) (lfiles l);
                   matches = filter (\<lambda>c. startsWith (cname c) namePart) candidates
               in if matches = [] then
                    (input, st\<lparr>completionSession := None, shownHint := Some NoFilesHint\<rparr>)
                  else
                    let beforeWord = take rawS input;
                        afterWord = drop rawE input;
                        preferredQuote = (case currentQuote of None \<Rightarrow> dquote | Some q \<Rightarrow> q);
                        newWord = quoteArgIfNeeded (dirPart @ displayName (hd matches)) preferredQuote;
                        newInput = beforeWord @ newWord @ afterWord
                    in if length matches = 1 then
                         (newInput, st\<lparr>completionSession := None, shownHint := None\<rparr>)
                       else
                         (newInput,
                          st\<lparr>completionSession :=
                                Some \<lparr>active = True,
                                      body = PathSession matches beforeWord afterWord dirPart currentQuote,
                                      index = 0, lastInput = newInput\<rparr>,
                             shownHint := Some (CandidateHint (map displayName matches) 0)\<rparr>))"

text \<open>\<^verbatim>\<open>commandHistory[commandHistory.length - 1 - historyIndex] || currentInput\<close>.\<close>

definition historyEntry :: "string list \<Rightarrow> int \<Rightarrow> string \<Rightarrow> string" where
  "historyEntry commandHistory hi input =
     (let k = int (length commandHistory) - 1 - hi in
      if 0 \<le> k \<and> k < int (length commandHistory) \<and> commandHistory ! nat k \<noteq> []
      then commandHistory ! nat k else input)"

text \<open>
  The Tab branch of the key handler, after \<^verbatim>\<open>_cycleCompletionSession\<close> returned \<^verbatim>\<open>null\<close>.
\<close>

definition completeFresh ::
  "(string \<Rightarrow> string \<Rightarrow> bool) \<Rightarrow> string list \<Rightarrow> string list \<Rightarrow> VirtualFileSystem \<Rightarrow> keyEvent \<Rightarrow> uiState \<Rightarrow> keyResult \<times> uiState" where
  "completeFresh le commands pathCommands v ev st =
     (let input = currentInput ev;
          tokenized = tokenizeCommandLine input;
          words = map tvalue (ttokens tokenized) @ (if endsWithSpace tokenized then [[]] else []);
          lastToken = (if ttokens tokenized = [] then None else Some (last (ttokens tokenized)));
          currentWord = (if words = [] then [] else last words);
          rawS = (if endsWithSpace tokenized then length input
                  else (case lastToken of None \<Rightarrow> 0 | Some t \<Rightarrow> rawStart t));
          rawE = (if endsWithSpace tokenized then length input
                  else (case lastToken of None \<Rightarrow> length input | Some t \<Rightarrow> rawEnd t));
          currentQuote = (if endsWithSpace tokenized then None
                          else (case lastToken of None \<Rightarrow> None | Some t \<Rightarrow> tquoteChar t))
      in if length words \<le> 1 then
           (if startsWith currentWord ''./'' then
              (case startPathCompletionSession v input currentWord rawS rawE currentQuote st of
                 (r, st') \<Rightarrow> (NewInput r, st'))
            else
              (case startCommandCompletionSession le commands pathCommands currentWord st of
                 (r, st') \<Rightarrow> (NewInput r, st')))
         else if length words = 2 \<and> hd words = ''hello'' then
           (let names = [''world'', ''user'', ''admin'', ''guest''];
                nameMatches = filter (\<lambda>n. startsWith n (toLowerCase currentWord)) names
            in if nameMatches \<noteq> [] then
                 (if length nameMatches = 1 then NewInput (hd words @ '' '' @ hd nameMatches)
                  else NewInput input,
                  st\<lparr>shownHint := Some (SuggestedNamesHint nameMatches)\<rparr>)
               else (NewInput input, st))
         else
           (case startPathCompletionSession v input currentWord rawS rawE currentQuote st of
              (r, st') \<Rightarrow> (NewInput r, st')))"

text \<open>
  The key handler installed by \<^verbatim>\<open>initUniversalKeyHandler\<close>. The two history search branches
  (typing and Backspace in search mode) are the parameter \<open>search\<close>: they build a regular
  expression from the query and do not touch the completion session.
\<close>

definition keyHandler ::
  "(string \<Rightarrow> string \<Rightarrow> bool) \<Rightarrow> string list \<Rightarrow> string list \<Rightarrow> string list \<Rightarrow> VirtualFileSystem \<Rightarrow>
   (keyEvent \<Rightarrow> uiState \<Rightarrow> keyResult \<times> uiState) \<Rightarrow> keyEvent \<Rightarrow> uiState \<Rightarrow> keyResult \<times> uiState" where
  "keyHandler le commands pathCommands commandHistory v search ev st =
     (if ctrlKey ev \<and> code ev = ''KeyD'' \<and> trim (currentInput ev) = [] then
        (Handled, st\<lparr>uiPrinted := uiPrinted st @ [''exit'', ''Goodbye! '' @ [CHR 0xF0, CHR 0x9F, CHR 0x91, CHR 0x8B]]\<rparr>)
      else if code ev = ''Escape'' then
        (let hadTransientUi = (searchMode st \<or> completionSession st \<noteq> None);
             st' = st\<lparr>searchMode := False, searchQuery := [], completionSession := None, shownHint := None\<rparr>
         in (if hadTransientUi then Handled else NewInput [], st'))
      else if code ev = ''ArrowUp'' then
        (if commandHistory \<noteq> [] then
           (let hi = min (historyIndex st + 1) (int (length commandHistory) - 1) in
            (NewInput (historyEntry commandHistory hi (currentInput ev)), st\<lparr>historyIndex := hi\<rparr>))
         else (Handled, st))
      else if code ev = ''ArrowDown'' then
        (if historyIndex st > -1 then
           (let hi = max (historyIndex st - 1) (-1) in
            if hi = -1 then (NewInput [], st\<lparr>historyIndex := hi\<rparr>)
            else (NewInput (historyEntry commandHistory hi (currentInput ev)), st\<lparr>historyIndex := hi\<rparr>))
         else (Handled, st))
      else if code ev = ''Tab'' then
        (let direction = (if altKey ev \<or> shiftKey ev then -1 else 1 :: int) in
         case cycleCompletionSession ev direction st of
           (Some cycled, st') \<Rightarrow> (NewInput cycled, st')
         | (None, st') \<Rightarrow> completeFresh le commands pathCommands v ev st')
      else if searchMode st \<and> length (key ev) = 1 then search ev st
      else if searchMode st \<and> code ev = ''Backspace'' then search ev st
      else if \<not> searchMode st \<and> length (key ev) = 1 then
        (Default, st\<lparr>completionSession := None, shownHint := None\<rparr>)
      else (Default, st))"
section \<open>Auxiliary predicates for the proofs\<close>

text \<open>An open quote implies an open token.\<close>

definition quoteStarted :: "tokState \<Rightarrow> bool" where
  "quoteStarted st \<longleftrightarrow> (quote st \<noteq> None \<longrightarrow> tokenStart st \<noteq> None)"


text \<open>A path segment as the resolver produces it: not empty, not a dot name, no separator.\<close>

definition cleanSeg :: "string \<Rightarrow> bool" where
  "cleanSeg p \<longleftrightarrow> p \<noteq> [] \<and> p \<noteq> ''.'' \<and> p \<noteq> ''..'' \<and> slash \<notin> set p"


text \<open>
  What a call of \<^verbatim>\<open>save()\<close> gives on a storage for the state it is to store: it returns, or
  passes on the exception of \<^verbatim>\<open>setItem\<close>; and the store after the call.
\<close>

definition saveOutcome :: "Storage \<Rightarrow> VfsState \<Rightarrow> vfs_error + unit" where
  "saveOutcome st s = (case setItemThrows st s of None \<Rightarrow> Inr () | Some msg \<Rightarrow> Inl (SetItemThrew msg))"

definition written :: "VirtualFileSystem \<Rightarrow> VirtualFileSystem" where
  "written v = snd (save v)"

text \<open>The errors the store operations raise themselves: all but the exception of \<^verbatim>\<open>setItem\<close>.\<close>

fun ownError :: "vfs_error \<Rightarrow> bool" where
  "ownError (SetItemThrew msg) = False"
| "ownError e = True"

text \<open>
  A fresh store over a storage without room, whose \<^verbatim>\<open>setItem\<close> throws for every value.
\<close>

definition fullVfs :: VirtualFileSystem where
  "fullVfs = \<lparr>state = createDefaultState,
     storage = \<lparr>item = None, setItemCalls = 0, setItemThrows = (\<lambda>s. Some ''QuotaExceededError'')\<rparr>\<rparr>"






text \<open>No \<^verbatim>\<open>writeFile\<close> of the sequence is given a path that resolves to the empty segment list.\<close>

fun safeOps :: "vfs_op list \<Rightarrow> VirtualFileSystem \<Rightarrow> bool" where
  "safeOps [] v = True"
| "safeOps (op # ops) v =
     ((case op of WriteFile p c \<Rightarrow> normalizePathParts (cwdParts (state v)) p \<noteq> [] | _ \<Rightarrow> True)
      \<and> safeOps ops (snd (applyOp op v)))"

text \<open>The cyclic alias table \<^verbatim>\<open>{a: "b", b: "a"}\<close>.\<close>

definition cyclicAliases :: "string \<Rightarrow> string option" where
  "cyclicAliases k = (if k = ''a'' then Some ''b'' else if k = ''b'' then Some ''a'' else None)"

text \<open>
  The shell after a prefix of script lines each of which is skipped or dispatched with
  \<^verbatim>\<open>ok\<close> and \<^verbatim>\<open>shouldContinue\<close>; \<^const>\<open>None\<close> if one of them is not.
\<close>

fun okPrefix :: "handler list \<Rightarrow> string list \<Rightarrow> shell \<Rightarrow> shell option" where
  "okPrefix mods [] sh = Some sh"
| "okPrefix mods (l # ls) sh =
     (let parsed = parseSimpleCommandLine l in
      if command parsed = [] then okPrefix mods ls sh
      else case dispatchStrict mods sh (command parsed) (args parsed) of
             (r, sh1) \<Rightarrow> if sok r \<and> sshouldContinue r then okPrefix mods ls sh1 else None)"

text \<open>
  Example shells for the command script \<^verbatim>\<open>s.jsh\<close> with the lines \<^verbatim>\<open>mkdir x\<close>, \<^verbatim>\<open>cd nowhere\<close>,
  \<^verbatim>\<open>mkdir y\<close>: the root holds the script, and in the second shell also a file named \<^verbatim>\<open>x\<close>.
  The handlers that are not modelled do nothing, and neither does the script runner.
\<close>

definition scriptText :: string where
  "scriptText = ''mkdir x'' @ [CHR 0x0A] @ ''cd nowhere'' @ [CHR 0x0A] @ ''mkdir y''"

definition shellWithScript :: shell where
  "shellWithScript =
     \<lparr>vfs = \<lparr>state = \<lparr>root = VfsFolder ''/'' [] [VfsFile (Some ''s.jsh'') scriptText], cwdParts = []\<rparr>,
             storage = \<lparr>item = None, setItemCalls = 0, setItemThrows = (\<lambda>s. None)\<rparr>\<rparr>,
      printed = []\<rparr>"

definition shellWithFileX :: shell where
  "shellWithFileX =
     \<lparr>vfs = \<lparr>state = \<lparr>root = VfsFolder ''/'' []
                 [VfsFile (Some ''s.jsh'') scriptText, VfsFile (Some ''x'') ''data''], cwdParts = []\<rparr>,
             storage = \<lparr>item = None, setItemCalls = 0, setItemThrows = (\<lambda>s. None)\<rparr>\<rparr>,
      printed = []\<rparr>"

text \<open>The first example shell over a storage without room: \<^verbatim>\<open>setItem\<close> throws for every value.\<close>

definition shellWithoutRoom :: shell where
  "shellWithoutRoom =
     \<lparr>vfs = \<lparr>state = \<lparr>root = VfsFolder ''/'' [] [VfsFile (Some ''s.jsh'') scriptText], cwdParts = []\<rparr>,
             storage = \<lparr>item = None, setItemCalls = 0,
                        setItemThrows = (\<lambda>s. Some ''QuotaExceededError'')\<rparr>\<rparr>,
      printed = []\<rparr>"

definition noExt :: "string \<Rightarrow> handler" where
  "noExt nm sh cmd as = (handledOk, sh)"

definition idleRunner :: runner where
  "idleRunner sh cmd as source = ((True, None), sh)"

text \<open>
  The file name \<^verbatim>\<open>resolveScriptOnPath\<close> looks for, whether an entry of \<^verbatim>\<open>env.PATH\<close> is a
  directory that holds it, and the script path in such a directory.
\<close>

definition fileNameFor :: "string \<Rightarrow> string" where
  "fileNameFor commandName = (if endsWith commandName ''.js'' then commandName else commandName @ ''.js'')"

definition holdsScript :: "VirtualFileSystem \<Rightarrow> string \<Rightarrow> jsval \<Rightarrow> bool" where
  "holdsScript v fileName x =
     (case x of
        JOther \<Rightarrow> False
      | JString dir \<Rightarrow>
          startsWith dir ''/'' \<and>
          (case fst (list dir v) of Inl err \<Rightarrow> False | Inr listing \<Rightarrow> Some fileName \<in> set (lfiles listing)))"

definition scriptPathIn :: "string \<Rightarrow> jsval \<Rightarrow> string" where
  "scriptPathIn fileName x = (case x of JOther \<Rightarrow> [] | JString dir \<Rightarrow> joinVfsPath dir fileName)"

text \<open>
  Example for the PATH fallback: \<^verbatim>\<open>/bin/sample.js\<close> exists, \<^verbatim>\<open>PATH\<close> is \<^verbatim>\<open>["/bin"]\<close> and \<^verbatim>\<open>s\<close> is an
  alias of \<^verbatim>\<open>sample\<close>. The runner prints the \<^verbatim>\<open>command\<close> string the script is given.
\<close>

definition shellWithSample :: shell where
  "shellWithSample =
     \<lparr>vfs = \<lparr>state = \<lparr>root = VfsFolder ''/'' [VfsFolder ''bin'' [] [VfsFile (Some ''sample.js'') ''source'']] [],
                        cwdParts = []\<rparr>,
             storage = \<lparr>item = None, setItemCalls = 0, setItemThrows = (\<lambda>s. None)\<rparr>\<rparr>,
      printed = []\<rparr>"

definition sampleEnv :: env where
  "sampleEnv = \<lparr>PATH = [JOther, JString ''bin'', JString ''/missing'', JString ''/bin''],
                 ALIAS = (\<lambda>k. if k = ''s'' then Some ''sample'' else None)\<rparr>"

definition echoRunner :: runner where
  "echoRunner sh cmd as source = ((True, None), print (''command = '' @ cmd) sh)"

text \<open>
  Whether an input line tokenizes to exactly two words with the first one \<^verbatim>\<open>hello\<close>: the
  inputs that reach the contextual example branch of the Tab handler.
\<close>

definition helloInput :: "string \<Rightarrow> bool" where
  "helloInput input =
     (let tokenized = tokenizeCommandLine input;
          words = map tvalue (ttokens tokenized) @ (if endsWithSpace tokenized then [[]] else [])
      in length words = 2 \<and> hd words = ''hello'')"

text \<open>The order of strings by code units, as an example of a locale order.\<close>

fun codeUnitOrder :: "string \<Rightarrow> string \<Rightarrow> bool" where
  "codeUnitOrder [] ys = True"
| "codeUnitOrder (x # xs) [] = False"
| "codeUnitOrder (x # xs) (y # ys) =
     ((of_char x :: nat) < of_char y \<or> (x = y \<and> codeUnitOrder xs ys))"

text \<open>Example: a session over \<^verbatim>\<open>ls\<close> and \<^verbatim>\<open>lsblk\<close> that proposed \<^verbatim>\<open>ls\<close>, and Tab events.\<close>

definition lsSession :: session where
  "lsSession = \<lparr>active = True, body = CommandSession [''ls'', ''lsblk''], index = 0, lastInput = ''ls ''\<rparr>"

definition uiWithSession :: uiState where
  "uiWithSession = \<lparr>historyIndex = -1, searchMode = False, searchQuery = [],
     completionSession = Some lsSession, shownHint = Some (CandidateHint [''ls'', ''lsblk''] 0),
     uiPrinted = []\<rparr>"

definition tabWith :: "string \<Rightarrow> keyEvent" where
  "tabWith input = \<lparr>code = ''Tab'', key = ''Tab'', ctrlKey = False, altKey = False, shiftKey = False,
     currentInput = input\<rparr>"

definition noSearch :: "keyEvent \<Rightarrow> uiState \<Rightarrow> keyResult \<times> uiState" where
  "noSearch ev st = (Default, st)"

definition typedA :: keyEvent where
  "typedA = \<lparr>code = ''KeyA'', key = ''a'', ctrlKey = False, altKey = False, shiftKey = False,
     currentInput = ''ls ''\<rparr>"
section \<open>Tokenizer: the unterminated quote flag\<close>

lemma pushToken_quote [simp]: "tokenStart st \<noteq> None \<Longrightarrow> quote (pushToken k st) = None"
  by (auto simp: pushToken_def split: option.splits)

lemma quoteStarted_startAt [simp]: "quoteStarted ((startAt k st)\<lparr>buf := b\<rparr>)"
  "quoteStarted ((startAt k st)\<lparr>buf := b, escaping := e\<rparr>)"
  "quoteStarted ((startAt k st)\<lparr>escaping := e\<rparr>)"
  "quoteStarted ((startAt k st)\<lparr>quote := q, quoteChar := c, hadQuotes := h\<rparr>)"
  by (simp_all add: quoteStarted_def startAt_def)

lemma quoteStarted_close [simp]: "quoteStarted (st\<lparr>hadQuotes := h, quote := None\<rparr>)"
  by (simp add: quoteStarted_def)

lemma quoteStarted_push [simp]:
  "quoteStarted st \<Longrightarrow> quoteStarted (if tokenStart st \<noteq> None then pushToken k st else st)"
  by (auto simp: quoteStarted_def)

lemma tokLoop_quote_started: "quoteStarted st \<Longrightarrow> quoteStarted (tokLoop i cs st)"
proof (induction i cs st rule: tokLoop.induct)
  case (1 i st)
  then show ?case by simp
next
  case (2 i ch cs st)
  note prem = \<open>quoteStarted st\<close>
  show ?case
  proof (cases "escaping st")
    case True
    then show ?thesis using "2.IH"(1) by simp
  next
    case esc: False
    show ?thesis
    proof (cases "ch = backslash")
      case True
      then show ?thesis using esc "2.IH"(2) by simp
    next
      case nb: False
      show ?thesis
      proof (cases "quote st \<noteq> None")
        case True
        then show ?thesis using esc nb "2.IH"(3,4) by simp
      next
        case nq: False
        show ?thesis
        proof (cases "ch = dquote \<or> ch = squote")
          case True
          then show ?thesis using esc nb nq "2.IH"(5) by simp
        next
          case nqc: False
          show ?thesis
          proof (cases "isWhitespace ch")
            case True
            then show ?thesis
              using esc nb nq nqc prem "2.IH"(6) quoteStarted_push [OF prem, of i]
              by (simp add: Let_def)
          next
            case False
            then show ?thesis using esc nb nq nqc "2.IH"(7) by simp
          qed
        qed
      qed
    qed
  qed
qed

lemma tokenize_never_flags: "unterminatedQuote (tokenizeCommandLine src) = False"
proof -
  let ?st = "tokLoop 0 src initTokState"
  have inv: "quoteStarted ?st"
    by (rule tokLoop_quote_started) (simp add: quoteStarted_def initTokState_def)
  show ?thesis
    using inv by (auto simp: tokenizeCommandLine_def quoteStarted_def Let_def)
qed

text \<open>
  C1. An input that ends inside an open quoted span, \<^verbatim>\<open>echo "abc\<close>: the tokenizer returns
  the two tokens \<^verbatim>\<open>echo\<close> and the partial \<^verbatim>\<open>abc\<close>, but the final \<^verbatim>\<open>pushToken\<close> has
  reset \<^verbatim>\<open>quote\<close> before \<^verbatim>\<open>Boolean(quote)\<close> is read, so the flag is false.
\<close>

theorem tokenize_open_quote_flag_lost:
  "map tvalue (ttokens (tokenizeCommandLine (''echo '' @ [dquote] @ ''abc''))) = [''echo'', ''abc'']
   \<and> unterminatedQuote (tokenizeCommandLine (''echo '' @ [dquote] @ ''abc'')) = False"
  by (simp add: tokenizeCommandLine_def initTokState_def startAt_def pushToken_def
      isWhitespace_def Let_def)

section \<open>Path resolver: the display form resolves to itself\<close>

lemma splitOn_nonempty [simp]: "splitOn c s \<noteq> []"
  by (induction s) (auto split: list.splits)

lemma splitOn_no_sep: "t \<in> set (splitOn c s) \<Longrightarrow> c \<notin> set t"
proof (induction s arbitrary: t)
  case Nil
  then show ?case by simp
next
  case (Cons x xs)
  show ?case
  proof (cases "x = c")
    case True
    with Cons show ?thesis by auto
  next
    case False
    obtain y ys where sp: "splitOn c xs = y # ys"
      using splitOn_nonempty [of c xs] by (cases "splitOn c xs") auto
    with Cons False show ?thesis by auto
  qed
qed

lemma splitOn_plain: "c \<notin> set s \<Longrightarrow> splitOn c s = [s]"
  by (induction s) auto

lemma splitOn_append_sep: "c \<notin> set s \<Longrightarrow> splitOn c (s @ c # r) = s # splitOn c r"
  by (induction s) auto

lemma splitOn_joinWith:
  "ts \<noteq> [] \<Longrightarrow> \<forall>t \<in> set ts. c \<notin> set t \<Longrightarrow> splitOn c (joinWith c ts) = ts"
proof (induction c ts rule: joinWith.induct)
  case (1 c)
  then show ?case by simp
next
  case (2 c s)
  then show ?case by (simp add: splitOn_plain)
next
  case (3 c s t ts)
  then show ?case by (simp add: splitOn_append_sep)
qed

lemma normStep_clean:
  "list_all cleanSeg acc \<Longrightarrow> p \<noteq> [] \<Longrightarrow> p \<noteq> ''.'' \<Longrightarrow> slash \<notin> set p \<Longrightarrow>
   list_all cleanSeg (normStep acc p)"
  by (auto simp: normStep_def cleanSeg_def list_all_iff dest: in_set_butlastD)

lemma foldl_normStep_clean:
  "list_all cleanSeg acc \<Longrightarrow> \<forall>p \<in> set ps. p \<noteq> [] \<and> p \<noteq> ''.'' \<and> slash \<notin> set p \<Longrightarrow>
   list_all cleanSeg (foldl normStep acc ps)"
  by (induction ps arbitrary: acc) (auto simp: normStep_clean)

lemma foldl_normStep_id:
  "list_all cleanSeg ps \<Longrightarrow> foldl normStep acc ps = acc @ ps"
  by (induction ps arbitrary: acc) (auto simp: normStep_def cleanSeg_def)

lemma normalize_absolute_clean:
  assumes "startsWith p ''/''"
  shows "list_all cleanSeg (normalizePathParts cwd p)"
proof -
  from assms have ne: "p \<noteq> []" "p \<noteq> ''.''" by (auto simp: startsWith_def)
  have "\<forall>q \<in> set (filter (\<lambda>p. p \<noteq> [] \<and> p \<noteq> ''.'') (splitOn slash p)).
          q \<noteq> [] \<and> q \<noteq> ''.'' \<and> slash \<notin> set q"
    by (auto dest: splitOn_no_sep)
  then have "list_all cleanSeg (foldl normStep [] (filter (\<lambda>p. p \<noteq> [] \<and> p \<noteq> ''.'') (splitOn slash p)))"
    by (intro foldl_normStep_clean) simp_all
  with ne assms show ?thesis by (simp add: normalizePathParts_def Let_def)
qed

lemma normalize_display_clean:
  assumes "list_all cleanSeg r"
  shows "normalizePathParts cwd (slash # joinWith slash r) = r"
proof (cases "r = []")
  case True
  then show ?thesis by (simp add: normalizePathParts_def startsWith_def normStep_def)
next
  case False
  from assms have nosep: "\<forall>t \<in> set r. slash \<notin> set t" by (auto simp: list_all_iff cleanSeg_def)
  have sp: "splitOn slash (slash # joinWith slash r) = [] # r"
    using splitOn_joinWith [OF False nosep] by simp
  have fl: "filter (\<lambda>p. p \<noteq> [] \<and> p \<noteq> ''.'') r = r"
    using assms by (auto simp: list_all_iff cleanSeg_def intro: filter_True)
  have "slash # joinWith slash r \<noteq> ''.''" using False by (cases r) auto
  then show ?thesis
    using sp fl foldl_normStep_id [OF assms, of "[]"]
    by (simp add: normalizePathParts_def startsWith_def Let_def)
qed

text \<open>
  C5. For every cwd segment list and every absolute path string \<open>p\<close>, resolving the
  display form \<^verbatim>\<open>'/' + parts.join('/')\<close> of the resolution of \<open>p\<close> gives the resolution
  of \<open>p\<close> again.
\<close>

theorem normalizePathParts_display_idempotent:
  "startsWith p ''/'' \<Longrightarrow>
   normalizePathParts cwd (slash # joinWith slash (normalizePathParts cwd p)) = normalizePathParts cwd p"
  by (rule normalize_display_clean) (rule normalize_absolute_clean)

theorem normalizePathParts_display_idempotent_witness:
  "startsWith ''/a/./b/../c'' ''/'' \<and> normalizePathParts [''home''] ''/a/./b/../c'' = [''a'', ''c''] \<and>
   normalizePathParts [''home''] (slash # joinWith slash (normalizePathParts [''home''] ''/a/./b/../c''))
     = [''a'', ''c'']"
proof -
  have h: "startsWith ''/a/./b/../c'' ''/''" by (simp add: startsWith_def)
  have v: "normalizePathParts [''home''] ''/a/./b/../c'' = [''a'', ''c'']"
    by (simp add: normalizePathParts_def startsWith_def normStep_def)
  show ?thesis using h v normalizePathParts_display_idempotent [OF h, of "[''home'']"] by simp
qed

section \<open>Virtual file system: facts about the tree update\<close>

lemma mapFirst_none: "find P xs = None \<Longrightarrow> mapFirst P h xs = xs"
  by (induction xs) (auto split: if_splits)

lemma mapFirst_fix: "find P xs = Some x \<Longrightarrow> h x = x \<Longrightarrow> mapFirst P h xs = xs"
  by (induction xs) (auto split: if_splits)

lemma find_mapFirst: "find P xs = Some x \<Longrightarrow> P (h x) \<Longrightarrow> find P (mapFirst P h xs) = Some (h x)"
  by (induction xs) (auto split: if_splits)

lemma find_mapFirst_none: "find P xs = None \<Longrightarrow> find P (mapFirst P h xs) = None"
  by (simp add: mapFirst_none)


lemma find_Some_P: "find P xs = Some x \<Longrightarrow> P x \<and> x \<in> set xs"
  by (induction xs) (auto split: if_splits)

lemma fname_modifyFolder:
  "(\<And>c. fname (g c) = fname c) \<Longrightarrow> fname (modifyFolder g ps r) = fname r"
  by (cases ps) auto

lemma resolveFrom_modifyFolder:
  "(\<And>c. fname (g c) = fname c) \<Longrightarrow> resolveFrom r ps = Some f \<Longrightarrow>
   resolveFrom (modifyFolder g ps r) ps = Some (g f)"
proof (induction ps arbitrary: r)
  case Nil
  then show ?case by simp
next
  case (Cons p ps)
  from Cons.prems(2) obtain nxt where nx: "find (\<lambda>f. fname f = p) (folders r) = Some nxt"
    and rs: "resolveFrom nxt ps = Some f"
    by (auto split: option.splits)
  have pn: "fname nxt = p" using find_Some_P [OF nx] by simp
  have "fname (modifyFolder g ps nxt) = p"
    using fname_modifyFolder [of g ps nxt] Cons.prems(1) pn by simp
  then have "find (\<lambda>f. fname f = p) (mapFirst (\<lambda>f. fname f = p) (modifyFolder g ps) (folders r))
      = Some (modifyFolder g ps nxt)"
    using nx by (intro find_mapFirst) simp_all
  then show ?case using Cons.IH [OF Cons.prems(1) rs] by simp
qed

lemma modifyFolder_unresolved: "resolveFrom r ps = None \<Longrightarrow> modifyFolder g ps r = r"
proof (induction ps arbitrary: r)
  case Nil
  then show ?case by simp
next
  case (Cons p ps)
  show ?case
  proof (cases "find (\<lambda>f. fname f = p) (folders r)")
    case None
    then show ?thesis by (simp add: mapFirst_none)
  next
    case (Some nxt)
    with Cons.prems have "resolveFrom nxt ps = None" by simp
    then have "modifyFolder g ps nxt = nxt" by (rule Cons.IH)
    then show ?thesis using Some by (simp add: mapFirst_fix)
  qed
qed




lemma findIndex_none_iff: "findIndex P xs = None \<longleftrightarrow> (\<forall>x \<in> set xs. \<not> P x)"
  by (induction xs) (auto split: option.splits)

lemma findIndex_Some: "findIndex P xs = Some i \<Longrightarrow> i < length xs \<and> P (xs ! i) \<and> find P xs = Some (xs ! i)"
  by (induction xs arbitrary: i) (auto split: if_splits option.splits)



lemma splice1_last [simp]: "splice1 (length xs) (xs @ [y]) = xs"
  by (simp add: splice1_def)

section \<open>Virtual file system: save\<close>

lemma save_eq: "save v = (saveOutcome (storage v) (state v), written v)"
  by (simp add: save_def setItem_def saveOutcome_def written_def split: option.splits)

lemma state_written [simp]: "state (written v) = state v"
  by (simp add: written_def save_def setItem_def split: option.splits)

lemma throws_written [simp]: "setItemThrows (storage (written v)) = setItemThrows (storage v)"
  by (simp add: written_def save_def setItem_def split: option.splits)

lemma calls_written [simp]: "setItemCalls (storage (written v)) = Suc (setItemCalls (storage v))"
  by (simp add: written_def save_def setItem_def split: option.splits)

lemma snd_save [simp]: "snd (save v) = written v"
  by (simp add: written_def)

lemma fst_save [simp]: "fst (save v) = saveOutcome (storage v) (state v)"
  by (simp add: save_eq)

lemma saveOutcome_Inr [simp]: "saveOutcome st s = Inr u \<longleftrightarrow> setItemThrows st s = None"
  by (simp add: saveOutcome_def split: option.splits)

lemma saveOutcome_Inl [simp]: "saveOutcome st s = Inl e \<longleftrightarrow> setItemThrows st s = Some (errorMessage e) \<and> \<not> ownError e"
  by (cases e) (auto simp: saveOutcome_def split: option.splits)

lemma state_mutateFolder [simp]:
  "root (state (mutateFolder ps g v)) = modifyFolder g ps (root (state v))"
  "cwdParts (state (mutateFolder ps g v)) = cwdParts (state v)"
  "storage (mutateFolder ps g v) = storage v"
  by (simp_all add: mutateFolder_def)


section \<open>Virtual file system: mkdir and rmdir\<close>

lemma mkdir_ok_iff:
  "mkdir n v = (Inr (), v1) \<longleftrightarrow>
     n \<noteq> [] \<and> backslash \<notin> set n \<and> slash \<notin> set n \<and>
     (\<exists>cwd. getCwdFolder v = Some cwd \<and> (\<forall>f \<in> set (folders cwd). fname f \<noteq> n) \<and>
        (\<forall>f \<in> set (files cwd). name f \<noteq> Some n) \<and>
        setItemThrows (storage v) (state v1) = None \<and>
        v1 = written (mutateFolder (cwdParts (state v))
               (\<lambda>c. VfsFolder (fname c) (folders c @ [VfsFolder n [] []]) (files c)) v))"
  by (auto simp: mkdir_def save_eq split: option.splits)


section \<open>Virtual file system: writeFile, readFile and errors\<close>

lemma findIndex_update:
  "findIndex P xs = Some i \<Longrightarrow> P y \<Longrightarrow> findIndex P (xs[i := y]) = Some i"
  by (induction xs arbitrary: i) (auto split: if_splits option.splits)



lemma normalize_x_txt [simp]: "normalizePathParts cwd ''/x.txt'' = [''x.txt'']"
  by (simp add: normalizePathParts_def startsWith_def normStep_def)








text \<open>
  C10 as stated fails where the storage has no room: \<^verbatim>\<open>mkdir("a")\<close> on the fresh store
  pushes the folder, then \<^verbatim>\<open>save()\<close> is invoked and passes on the exception of \<^verbatim>\<open>setItem\<close>.
  The operation has raised an error, the tree in memory holds the new folder and \<^verbatim>\<open>setItem\<close>
  has been called once.
\<close>

theorem mkdir_full_storage_counterexample:
  "fst (applyOp (Mkdir ''a'') fullVfs) = Some (SetItemThrew ''QuotaExceededError'')
   \<and> folders (root (state fullVfs)) = []
   \<and> folders (root (state (snd (applyOp (Mkdir ''a'') fullVfs)))) = [VfsFolder ''a'' [] []]
   \<and> setItemCalls (storage fullVfs) = 0
   \<and> setItemCalls (storage (snd (applyOp (Mkdir ''a'') fullVfs))) = 1
   \<and> item (storage (snd (applyOp (Mkdir ''a'') fullVfs))) = None"
  by (simp add: mkdir_def fullVfs_def getCwdFolder_def resolveFolder_def createDefaultState_def
      mutateFolder_def save_def setItem_def)

text \<open>
  C10 (amended). Whenever a store operation (\<^verbatim>\<open>changeDirectory\<close>, \<^verbatim>\<open>mkdir\<close>, \<^verbatim>\<open>rmdir\<close>,
  \<^verbatim>\<open>writeFile\<close>, \<^verbatim>\<open>readFile\<close>, \<^verbatim>\<open>unlink\<close>) raises one of its own errors, that is any error
  other than the exception of \<^verbatim>\<open>setItem\<close>, in any state and for any argument, the store is
  left exactly as it was: the tree, the cwd, the persisted item and the number of \<^verbatim>\<open>setItem\<close>
  calls (so \<^verbatim>\<open>save()\<close> was not invoked).
\<close>

theorem vfs_error_atomic:
  "fst (applyOp op v) = Some e \<Longrightarrow> ownError e \<Longrightarrow> snd (applyOp op v) = v"
proof (cases op)
  case (ChangeDirectory p)
  assume "fst (applyOp op v) = Some e" "ownError e"
  then show ?thesis using ChangeDirectory
    by (auto simp: changeDirectory_def Let_def save_eq split: option.splits sum.splits)
next
  case (Mkdir n)
  assume "fst (applyOp op v) = Some e" "ownError e"
  then show ?thesis using Mkdir
    by (auto simp: mkdir_def save_eq split: option.splits if_splits sum.splits)
next
  case (Rmdir n)
  assume "fst (applyOp op v) = Some e" "ownError e"
  then show ?thesis using Rmdir
    by (auto simp: rmdir_def Let_def save_eq split: option.splits if_splits sum.splits)
next
  case (WriteFile p c)
  assume "fst (applyOp op v) = Some e" "ownError e"
  then show ?thesis using WriteFile
    by (auto simp: writeFile_def save_eq split: option.splits sum.splits prod.splits)
next
  case (ReadFile p)
  assume "fst (applyOp op v) = Some e" "ownError e"
  then show ?thesis using ReadFile
    by (auto simp: readFile_def split: option.splits)
next
  case (Unlink p)
  assume "fst (applyOp op v) = Some e" "ownError e"
  then show ?thesis using Unlink
    by (auto simp: unlink_def Let_def save_eq split: option.splits sum.splits)
qed



theorem vfs_error_atomic_witness:
  "fst (applyOp (Rmdir ''a'') newVfs) = Some (RmdirNoSuch ''a'') \<and> ownError (RmdirNoSuch ''a'')
   \<and> snd (applyOp (Rmdir ''a'') newVfs) = newVfs
   \<and> fst (applyOp (WriteFile ''/nodir/f.txt'' ''x'') fullVfs) = Some (NoSuchDirectoryForPath ''/nodir/f.txt'')
   \<and> ownError (NoSuchDirectoryForPath ''/nodir/f.txt'')
   \<and> snd (applyOp (WriteFile ''/nodir/f.txt'' ''x'') fullVfs) = fullVfs"
proof -
  have h1: "fst (applyOp (Rmdir ''a'') newVfs) = Some (RmdirNoSuch ''a'')"
    by (simp add: rmdir_def newVfs_def getCwdFolder_def resolveFolder_def createDefaultState_def)
  have o1: "ownError (RmdirNoSuch ''a'')" by simp
  have h2: "fst (applyOp (WriteFile ''/nodir/f.txt'' ''x'') fullVfs) = Some (NoSuchDirectoryForPath ''/nodir/f.txt'')"
    by (simp add: writeFile_def ensureFileParent_def normalizePathParts_def startsWith_def normStep_def
        popName_def fullVfs_def resolveFolder_def createDefaultState_def)
  have o2: "ownError (NoSuchDirectoryForPath ''/nodir/f.txt'')" by simp
  show ?thesis
    by (intro conjI) (rule h1, rule o1, rule vfs_error_atomic [OF h1 o1], rule h2, rule o2,
      rule vfs_error_atomic [OF h2 o2])
qed
section \<open>Virtual file system: the tree invariant\<close>

lemma treeInv_sel:
  "treeInv r \<longleftrightarrow> distinct (map fname (folders r)) \<and> distinct (map name (files r)) \<and>
     list_all (\<lambda>f. validName (fname f)) (folders r) \<and> list_all (\<lambda>f. validFileName (name f)) (files r) \<and>
     list_all treeInv (folders r)"
  by (cases r) simp

lemma map_fname_mapFirst:
  "(\<And>x. fname (h x) = fname x) \<Longrightarrow> map fname (mapFirst P h xs) = map fname xs"
  by (induction xs) auto

lemma list_all_mapFirst:
  "list_all Q xs \<Longrightarrow> (\<And>x. find P xs = Some x \<Longrightarrow> Q x \<Longrightarrow> Q (h x)) \<Longrightarrow> list_all Q (mapFirst P h xs)"
  by (induction xs) auto

lemma treeInv_modifyFolder:
  "resolveFrom r ps = Some f \<Longrightarrow> treeInv r \<Longrightarrow> (\<And>c. fname (g c) = fname c) \<Longrightarrow>
   (treeInv f \<Longrightarrow> treeInv (g f)) \<Longrightarrow> treeInv (modifyFolder g ps r)"
proof (induction ps arbitrary: r)
  case Nil
  then show ?case by simp
next
  case (Cons p ps)
  let ?P = "\<lambda>f. fname f = p"
  from Cons.prems(1) obtain nxt where nx: "find ?P (folders r) = Some nxt"
    and rs: "resolveFrom nxt ps = Some f"
    by (auto split: option.splits)
  have fn: "\<And>x. fname (modifyFolder g ps x) = fname x"
    using fname_modifyFolder [of g ps] Cons.prems(3) by simp
  have inv: "distinct (map fname (folders r))" "distinct (map name (files r))"
    "list_all (\<lambda>f. validName (fname f)) (folders r)" "list_all (\<lambda>f. validFileName (name f)) (files r)"
    "list_all treeInv (folders r)"
    using Cons.prems(2) treeInv_sel [of r] by simp_all
  have step: "\<And>x. find ?P (folders r) = Some x \<Longrightarrow> treeInv x \<Longrightarrow> treeInv (modifyFolder g ps x)"
    using nx rs Cons.IH Cons.prems(3,4) by simp
  have "list_all treeInv (mapFirst ?P (modifyFolder g ps) (folders r))"
    using inv(5) step by (rule list_all_mapFirst)
  moreover have "list_all (\<lambda>f. validName (fname f)) (mapFirst ?P (modifyFolder g ps) (folders r))"
    using inv(3) by (rule list_all_mapFirst) (simp add: fn)
  moreover have "map fname (mapFirst ?P (modifyFolder g ps) (folders r)) = map fname (folders r)"
    by (rule map_fname_mapFirst) (rule fn)
  ultimately show ?case using inv by simp
qed


lemma stateInv_written [simp]: "stateInv (written v) = stateInv v"
  by (simp add: stateInv_def)

lemma normStep_valid:
  "list_all validName acc \<Longrightarrow> validName p \<Longrightarrow> list_all validName (normStep acc p)"
  by (auto simp: normStep_def list_all_iff dest: in_set_butlastD)

lemma foldl_normStep_valid:
  "list_all validName acc \<Longrightarrow> list_all validName ps \<Longrightarrow> list_all validName (foldl normStep acc ps)"
  by (induction ps arbitrary: acc) (auto simp: normStep_valid)

lemma normalizePathParts_valid:
  assumes "list_all validName cwd"
  shows "list_all validName (normalizePathParts cwd p)"
proof -
  have "list_all validName (filter (\<lambda>p. p \<noteq> [] \<and> p \<noteq> ''.'') (splitOn slash p))"
    by (auto simp: list_all_iff validName_def dest: splitOn_no_sep)
  then show ?thesis
    using assms by (simp add: normalizePathParts_def Let_def foldl_normStep_valid)
qed

lemma stateInv_mutate:
  assumes "stateInv v" and "resolveFolder v ps = Some f"
    and "\<And>c. fname (g c) = fname c" and "treeInv f \<Longrightarrow> treeInv (g f)"
  shows "stateInv (mutateFolder ps g v)"
  using assms treeInv_modifyFolder [of "root (state v)" ps f g]
  by (simp add: stateInv_def resolveFolder_def)

lemma distinct_map_splice1: "distinct (map h xs) \<Longrightarrow> distinct (map h (splice1 i xs))"
proof -
  assume d: "distinct (map h xs)"
  have "map h (splice1 i xs) = take i (map h xs) @ drop (Suc i) (map h xs)"
    by (simp add: splice1_def take_map drop_map)
  moreover have "distinct (take i (map h xs) @ drop (Suc i) (map h xs))"
    using d by (metis append_take_drop_id distinct_append distinct_drop drop_Suc tl_drop distinct_tl
        set_take_disj_set_drop_if_distinct le_SucI order_refl)
  ultimately show ?thesis by simp
qed

lemma list_all_splice1: "list_all Q xs \<Longrightarrow> list_all Q (splice1 i xs)"
  by (auto simp: splice1_def list_all_iff dest: in_set_takeD in_set_dropD)

lemma stateInv_changeDirectory: "stateInv v \<Longrightarrow> stateInv (snd (changeDirectory p v))"
  by (auto simp: changeDirectory_def Let_def stateInv_def normalizePathParts_valid split: option.splits)

lemma stateInv_mkdir: "stateInv v \<Longrightarrow> stateInv (snd (mkdir n v))"
proof -
  assume inv: "stateInv v"
  let ?g = "\<lambda>c. VfsFolder (fname c) (folders c @ [VfsFolder n [] []]) (files c)"
  show ?thesis
  proof (cases "n = [] \<or> (\<exists>c \<in> set n. c = backslash \<or> c = slash)")
    case True
    then have "mkdir n v = (Inl MkdirInvalidName, v)" unfolding mkdir_def by (rule if_P)
    with inv show ?thesis by simp
  next
    case invalid: False
    then have valid: "n \<noteq> []" "slash \<notin> set n" by auto
    show ?thesis
    proof (cases "getCwdFolder v")
      case None
      with inv invalid show ?thesis by (simp add: mkdir_def)
    next
      case (Some cwd)
      show ?thesis
      proof (cases "(\<exists>f \<in> set (folders cwd). fname f = n) \<or> (\<exists>f \<in> set (files cwd). name f = Some n)")
        case True
        then have "mkdir n v = (Inl (MkdirExists n), v)"
          using invalid Some unfolding mkdir_def by simp
        with inv show ?thesis by simp
      next
        case False
        then have fresh: "\<forall>f \<in> set (folders cwd). fname f \<noteq> n" by blast
        have v1: "snd (mkdir n v) = written (mutateFolder (cwdParts (state v)) ?g v)"
          using invalid Some False unfolding mkdir_def by simp
        have "treeInv cwd \<Longrightarrow> treeInv (?g cwd)"
          using valid fresh treeInv_sel [of cwd] by (auto simp: validName_def)
        then have "stateInv (mutateFolder (cwdParts (state v)) ?g v)"
          using inv Some by (intro stateInv_mutate [where f = cwd]) (simp_all add: getCwdFolder_def)
        then show ?thesis by (simp add: v1)
      qed
    qed
  qed
qed

lemma stateInv_rmdir: "stateInv v \<Longrightarrow> stateInv (snd (rmdir n v))"
proof -
  assume inv: "stateInv v"
  show ?thesis
  proof (cases "getCwdFolder v")
    case None
    with inv show ?thesis by (simp add: rmdir_def)
  next
    case (Some cwd)
    show ?thesis
    proof (cases "findIndex (\<lambda>f. fname f = n) (folders cwd)")
      case None
      with Some inv show ?thesis by (simp add: rmdir_def)
    next
      case (Some idx)
      let ?g = "\<lambda>c. VfsFolder (fname c) (splice1 idx (folders c)) (files c)"
      have "treeInv cwd \<Longrightarrow> treeInv (?g cwd)"
        using treeInv_sel [of cwd] by (simp add: distinct_map_splice1 list_all_splice1)
      then have "stateInv (mutateFolder (cwdParts (state v)) ?g v)"
        using inv \<open>getCwdFolder v = Some cwd\<close>
        by (intro stateInv_mutate [where f = cwd]) (simp_all add: getCwdFolder_def)
      then show ?thesis
        using inv Some \<open>getCwdFolder v = Some cwd\<close> by (simp add: rmdir_def Let_def)
    qed
  qed
qed

lemma stateInv_unlink: "stateInv v \<Longrightarrow> stateInv (snd (unlink p v))"
proof -
  assume inv: "stateInv v"
  let ?ps = "butlast (normalizePathParts (cwdParts (state v)) p)"
  let ?nm = "popName (normalizePathParts (cwdParts (state v)) p)"
  show ?thesis
  proof (cases "resolveFolder v ?ps")
    case None
    with inv show ?thesis by (simp add: unlink_def Let_def)
  next
    case (Some parent)
    show ?thesis
    proof (cases "findIndex (\<lambda>f. name f = ?nm) (files parent)")
      case None
      with Some inv show ?thesis by (simp add: unlink_def Let_def)
    next
      case (Some idx)
      let ?g = "\<lambda>c. VfsFolder (fname c) (folders c) (splice1 idx (files c))"
      have "treeInv parent \<Longrightarrow> treeInv (?g parent)"
        using treeInv_sel [of parent] by (simp add: distinct_map_splice1 list_all_splice1)
      then have "stateInv (mutateFolder ?ps ?g v)"
        using inv \<open>resolveFolder v ?ps = Some parent\<close>
        by (intro stateInv_mutate [where f = parent]) simp_all
      then show ?thesis
        using Some \<open>resolveFolder v ?ps = Some parent\<close> by (simp add: unlink_def Let_def)
    qed
  qed
qed

lemma stateInv_readFile: "stateInv v \<Longrightarrow> stateInv (snd (readFile p v))"
  by (simp add: readFile_def split: option.splits)

lemma stateInv_writeFile:
  assumes inv: "stateInv v" and ne: "normalizePathParts (cwdParts (state v)) p \<noteq> []"
  shows "stateInv (snd (writeFile p c v))"
proof -
  let ?parts = "normalizePathParts (cwdParts (state v)) p"
  let ?ps = "butlast ?parts"
  have "list_all validName ?parts"
    using inv by (simp add: stateInv_def normalizePathParts_valid)
  then have vl: "validName (last ?parts)" using ne by (simp add: list_all_iff)
  have nm: "popName ?parts = Some (last ?parts)" using ne by (simp add: popName_def)
  show ?thesis
  proof (cases "resolveFolder v ?ps")
    case None
    with inv show ?thesis by (simp add: writeFile_def ensureFileParent_def Let_def)
  next
    case (Some parent)
    show ?thesis
    proof (cases "findIndex (\<lambda>f. name f = Some (last ?parts)) (files parent)")
      case None
      let ?g = "\<lambda>c. VfsFolder (fname c) (folders c) (files c @ [VfsFile (Some (last ?parts)) c'])"
      have fresh: "\<forall>f \<in> set (files parent). name f \<noteq> Some (last ?parts)"
        using None by (simp add: findIndex_none_iff)
      have "\<And>c'. treeInv parent \<Longrightarrow>
          treeInv (VfsFolder (fname parent) (folders parent) (files parent @ [VfsFile (Some (last ?parts)) c']))"
        using treeInv_sel [of parent] vl fresh by (auto simp: validFileName_def)
      then have "stateInv (mutateFolder ?ps
          (\<lambda>q. VfsFolder (fname q) (folders q) (files q @ [VfsFile (Some (last ?parts)) c])) v)"
        using inv Some by (intro stateInv_mutate [where f = parent]) simp_all
      then show ?thesis
        using None Some nm by (simp add: writeFile_def ensureFileParent_def Let_def)
    next
      case (Some idx)
      have names: "map name ((files parent)[idx := VfsFile (name (files parent ! idx)) c]) = map name (files parent)"
        using findIndex_Some [OF Some] by (simp add: map_update list_update_same_conv)
      have va: "\<And>ys. list_all (\<lambda>f. validFileName (name f)) ys = list_all validFileName (map name ys)"
        by (simp add: list_all_iff)
      have "treeInv parent \<Longrightarrow>
          treeInv (VfsFolder (fname parent) (folders parent)
            ((files parent)[idx := VfsFile (name (files parent ! idx)) c]))"
        using treeInv_sel [of parent] names by (simp add: va)
      then have "stateInv (mutateFolder ?ps
          (\<lambda>q. VfsFolder (fname q) (folders q) ((files q)[idx := VfsFile (name (files q ! idx)) c])) v)"
        using inv \<open>resolveFolder v ?ps = Some parent\<close>
        by (intro stateInv_mutate [where f = parent]) simp_all
      then show ?thesis
        using Some \<open>resolveFolder v ?ps = Some parent\<close> nm
        by (simp add: writeFile_def ensureFileParent_def Let_def)
    qed
  qed
qed

lemma stateInv_applyOp:
  assumes "stateInv v"
    and "\<And>p c. op = WriteFile p c \<Longrightarrow> normalizePathParts (cwdParts (state v)) p \<noteq> []"
  shows "stateInv (snd (applyOp op v))"
proof (cases op)
  case (ChangeDirectory p)
  then show ?thesis using stateInv_changeDirectory [OF assms(1), of p]
    by (simp add: split_beta)
next
  case (Mkdir n)
  then show ?thesis using stateInv_mkdir [OF assms(1), of n] by (simp add: split_beta)
next
  case (Rmdir n)
  then show ?thesis using stateInv_rmdir [OF assms(1), of n] by (simp add: split_beta)
next
  case (WriteFile p c)
  then show ?thesis using stateInv_writeFile [OF assms(1) assms(2) [OF WriteFile], of c]
    by (simp add: split_beta)
next
  case (ReadFile p)
  then show ?thesis using stateInv_readFile [OF assms(1), of p] by (simp add: split_beta)
next
  case (Unlink p)
  then show ?thesis using stateInv_unlink [OF assms(1), of p] by (simp add: split_beta)
qed

lemma stateInv_newVfs: "stateInv newVfs"
  by (simp add: stateInv_def newVfs_def createDefaultState_def)

lemma normalize_root [simp]: "normalizePathParts [] ''/'' = []"
  by (simp add: normalizePathParts_def startsWith_def)

text \<open>Sequences of operations in which no \<^verbatim>\<open>writeFile\<close> path resolves to the root itself.\<close>

lemma stateInv_runOps:
  "stateInv v \<Longrightarrow> safeOps ops v \<Longrightarrow> stateInv (runOps ops v)"
proof (induction ops arbitrary: v)
  case Nil
  then show ?case by simp
next
  case (Cons op ops)
  from Cons.prems(2) have "\<And>p c. op = WriteFile p c \<Longrightarrow> normalizePathParts (cwdParts (state v)) p \<noteq> []"
    by auto
  then have "stateInv (snd (applyOp op v))" using Cons.prems(1) by (intro stateInv_applyOp)
  moreover from Cons.prems(2) have "safeOps ops (snd (applyOp op v))" by simp
  ultimately show ?case using Cons.IH by simp
qed

text \<open>
  C2. The invariant does not survive \<^verbatim>\<open>writeFile("/", "x")\<close> on the default empty-root store:
  the path resolves to no segment, \<^verbatim>\<open>parts.pop()\<close> is \<^verbatim>\<open>undefined\<close>, and the call succeeds and
  pushes a file without a name into the root. (Every other operation, and \<^verbatim>\<open>writeFile\<close> on a
  path that resolves to at least one segment, preserves the invariant: \<open>stateInv_applyOp\<close>.)
\<close>

theorem writeFile_root_path_nameless_file:
  "stateInv newVfs
   \<and> fst (writeFile ''/'' ''x'' newVfs) = Inr ()
   \<and> files (root (state (snd (writeFile ''/'' ''x'' newVfs)))) = [VfsFile None ''x'']
   \<and> \<not> stateInv (runOps [WriteFile ''/'' ''x''] newVfs)"
  by (simp add: stateInv_def newVfs_def createDefaultState_def writeFile_def ensureFileParent_def
      popName_def resolveFolder_def mutateFolder_def save_def setItem_def validFileName_def)
section \<open>Alias expansion terminates\<close>

lemma expandLoop_returns:
  "\<exists>r. expandLoop alias maxDepth i seen c a = Some r"
proof (induction "maxDepth - i" arbitrary: i seen c a)
  case 0
  then show ?case by (subst expandLoop.simps) simp
next
  case (Suc k)
  then have less: "i < maxDepth" and k: "k = maxDepth - (i + 1)" by simp_all
  show ?case
  proof (cases "c \<in> set seen \<or>
      (fst (expandAliasesOnce alias c a) = c \<and> snd (snd (expandAliasesOnce alias c a)))")
    case True
    then show ?thesis using less by (subst expandLoop.simps) (auto simp: Let_def)
  next
    case False
    then have "expandLoop alias maxDepth i seen c a =
        expandLoop alias maxDepth (i + 1) (seen @ [c])
          (fst (expandAliasesOnce alias c a)) (fst (snd (expandAliasesOnce alias c a)))"
      using less by (subst expandLoop.simps) (auto simp: Let_def)
    then show ?thesis using Suc.hyps(1) [OF k] by simp
  qed
qed

lemma expandLoop_seen: "expandLoop alias maxDepth i (seen @ [c]) c a = Some (c, a)"
  by (subst expandLoop.simps) simp

lemma expandLoop_depth: "expandLoop alias maxDepth (maxDepth + k) seen c a = Some (c, a)"
  by (subst expandLoop.simps) simp

lemma parse_a [simp]: "parseCommandLine ''a'' = \<lparr>command = ''a'', args = []\<rparr>"
  by (simp add: parseCommandLine_def tokenizeCommandLine_def initTokState_def startAt_def
      pushToken_def isWhitespace_def Let_def)

lemma parse_b [simp]: "parseCommandLine ''b'' = \<lparr>command = ''b'', args = []\<rparr>"
  by (simp add: parseCommandLine_def tokenizeCommandLine_def initTokState_def startAt_def
      pushToken_def isWhitespace_def Let_def)

lemma cyclic_once:
  "expandAliasesOnce cyclicAliases ''a'' as = (''b'', as, False)"
  "expandAliasesOnce cyclicAliases ''b'' as = (''a'', as, False)"
  by (simp_all add: expandAliasesOnce_def cyclicAliases_def trim_def jsSpace_def)

lemma cyclic_result: "expandAliases cyclicAliases ''a'' as 5 = Some (''a'', as)"
  unfolding expandAliases_def
  apply (subst expandLoop.simps, simp add: cyclic_once)
  apply (subst expandLoop.simps, simp add: cyclic_once)
  apply (subst expandLoop.simps, simp)
  done

text \<open>
  C8. For every alias table, every starting command and argument list and every depth limit,
  \<^verbatim>\<open>expandAliases\<close> returns. The loop returns at once when the current command is already in
  the visited set, and when the counter has reached the depth limit. With the cyclic table
  \<^verbatim>\<open>{a: "b", b: "a"}\<close>, expanding \<^verbatim>\<open>a\<close> stops silently at the command reached, \<^verbatim>\<open>a\<close>, with the
  arguments unchanged.
\<close>

theorem expandAliases_terminates:
  "(\<exists>c a. expandAliases alias cmd as maxDepth = Some (c, a))
   \<and> expandLoop alias maxDepth i (seen @ [cmd]) cmd as = Some (cmd, as)
   \<and> expandLoop alias maxDepth (maxDepth + k) seen cmd as = Some (cmd, as)
   \<and> expandAliases cyclicAliases ''a'' as 5 = Some (''a'', as)"
  using expandLoop_returns [of "alias" maxDepth 0 "[]" cmd "as"] expandLoop_seen expandLoop_depth cyclic_result
  by (simp add: expandAliases_def)

theorem expandAliases_terminates_witness:
  "(\<exists>c a. expandAliases cyclicAliases ''b'' [''x''] 5 = Some (c, a))
   \<and> expandAliases cyclicAliases ''a'' [''x''] 5 = Some (''a'', [''x''])"
  using expandAliases_terminates [of cyclicAliases "''b''" "[''x'']" 5 0 "[]" 0] by simp
section \<open>Command scripts stop at the first failing line\<close>

lemma runJshLines_stops:
  "okPrefix mods pre sh = Some sh1 \<Longrightarrow>
   command (parseSimpleCommandLine l) \<noteq> [] \<Longrightarrow>
   dispatchStrict mods sh1 (command (parseSimpleCommandLine l)) (args (parseSimpleCommandLine l)) = (r, sh2) \<Longrightarrow>
   \<not> sok r \<Longrightarrow>
   runJshLines mods invokedAs i (pre @ l # post) sh =
     (\<lparr>rhandled = True, rshouldContinue = True\<rparr>,
      print [] (print (''jsh: '' @ errorText (serror r)) (print (''jsh: '' @ l)
        (print (''jsh: stopped at '' @ invokedAs @ '':'' @ showNat (i + length pre + 1)) sh2))))"
proof (induction pre arbitrary: sh i)
  case Nil
  then show ?case by (simp add: Let_def)
next
  case (Cons p pre)
  show ?case
  proof (cases "command (parseSimpleCommandLine p) = []")
    case True
    with Cons.prems have "okPrefix mods pre sh = Some sh1" by (simp add: Let_def)
    from Cons.IH [OF this Cons.prems(2,3,4), of "i + 1"] True show ?thesis
      by (simp add: Let_def)
  next
    case False
    obtain rp shp where d: "dispatchStrict mods sh (command (parseSimpleCommandLine p))
        (args (parseSimpleCommandLine p)) = (rp, shp)"
      by (cases "dispatchStrict mods sh (command (parseSimpleCommandLine p)) (args (parseSimpleCommandLine p))")
    with Cons.prems(1) False have okp: "sok rp" "sshouldContinue rp" and rest: "okPrefix mods pre shp = Some sh1"
      by (auto simp: Let_def split: if_splits)
    from Cons.IH [OF rest Cons.prems(2,3,4), of "i + 1"] False d okp show ?thesis
      by (simp add: Let_def)
  qed
qed

lemma dispatchStrict_not_ok:
  "\<not> sok (fst (dispatchStrict mods sh c a)) \<longleftrightarrow>
     c \<noteq> [] \<and> (case fst (dispatchRegisteredModules mods sh c a) of
                  Inl e \<Rightarrow> True
                | Inr res \<Rightarrow> \<not> dhandled res \<or> dok res = Some False)"
  by (auto simp: dispatchStrict_def split: prod.splits sum.splits)


lemma toLowerCase_mkdir [simp]: "toLowerCase ''mkdir'' = ''mkdir''"
  by (simp add: toLowerCase_def toLowerChar_def)

lemma toLowerCase_cd [simp]: "toLowerCase ''cd'' = ''cd''"
  by (simp add: toLowerCase_def toLowerChar_def)

lemmas tokenize_eval = parseSimpleCommandLine_def trim_def jsSpace_def startsWith_def
  parseCommandLine_def tokenizeCommandLine_def initTokState_def startAt_def
  pushToken_def isWhitespace_def Let_def

lemma parse_mkdir_x [simp]: "parseSimpleCommandLine ''mkdir x'' = \<lparr>command = ''mkdir'', args = [''x'']\<rparr>"
  by (simp add: tokenize_eval)

lemma parse_cd_nowhere [simp]:
  "parseSimpleCommandLine ''cd nowhere'' = \<lparr>command = ''cd'', args = [''nowhere'']\<rparr>"
  by (simp add: tokenize_eval)

lemma parse_mkdir_y [simp]: "parseSimpleCommandLine ''mkdir y'' = \<lparr>command = ''mkdir'', args = [''y'']\<rparr>"
  by (simp add: tokenize_eval)

lemma dispatch_mkdir_ok:
  assumes "mkdir n (vfs sh) = (Inr (), v1)"
  shows "dispatchStrict (commandModules ext rs) sh ''mkdir'' [n] =
     (\<lparr>sok = True, shandled = True, sshouldContinue = True, serror = None\<rparr>,
      print [] (sh\<lparr>vfs := v1\<rparr>))"
  using assms
  by (simp add: dispatchStrict_def commandModules_def gated_def gatedExact_def executeExitCommand_def
      executeMkdirCommand_def notHandled_def handledOk_def)

lemma dispatch_cd_fails:
  assumes "changeDirectory p (vfs sh) = (Inl e, v)" and "p \<noteq> []"
  shows "dispatchStrict (commandModules ext rs) sh ''cd'' [p] =
     (\<lparr>sok = False, shandled = True, sshouldContinue = True, serror = Some (errorMessage e)\<rparr>,
      print [] (print (errorMessage e) (sh\<lparr>vfs := v\<rparr>)))"
  using assms
  by (simp add: dispatchStrict_def commandModules_def gated_def gatedExact_def executeExitCommand_def
      executeMkdirCommand_def executeRmdirCommand_def executeCdCommand_def
      notHandled_def handledFailed_def)


lemma resolveFrom_append:
  "resolveFrom r (ps @ [p]) =
     (case resolveFrom r ps of None \<Rightarrow> None | Some f \<Rightarrow> find (\<lambda>g. fname g = p) (folders f))"
  by (induction ps arbitrary: r) (auto split: option.splits)

lemma normalize_bare_name:
  "p \<noteq> [] \<Longrightarrow> slash \<notin> set p \<Longrightarrow> p \<noteq> ''.'' \<Longrightarrow> p \<noteq> ''..'' \<Longrightarrow>
   normalizePathParts cwd p = cwd @ [p]"
  by (cases p) (auto simp: normalizePathParts_def startsWith_def splitOn_plain normStep_def Let_def)

lemma find_append_miss: "P y = False \<Longrightarrow> find P (xs @ [y]) = find P xs"
  by (induction xs) auto

lemma script_example:
  assumes cwd: "getCwdFolder (vfs sh) = Some cwd"
    and nofolder: "\<forall>f \<in> set (folders cwd). fname f \<noteq> ''x'' \<and> fname f \<noteq> ''nowhere''"
    and nofile: "\<forall>f \<in> set (files cwd). name f \<noteq> Some ''x''"
    and stores: "setItemThrows (storage (vfs sh)) (state (snd (mkdir ''x'' (vfs sh)))) = None"
  shows "\<exists>sh'. runJshLines (commandModules ext rs) invokedAs 0 [''mkdir x'', ''cd nowhere'', ''mkdir y''] sh
            = (\<lparr>rhandled = True, rshouldContinue = True\<rparr>, sh')
        \<and> vfs sh' = snd (mkdir ''x'' (vfs sh))
        \<and> getCwdFolder (vfs sh') = Some (VfsFolder (fname cwd) (folders cwd @ [VfsFolder ''x'' [] []]) (files cwd))
        \<and> printed sh' = printed sh @ [[], ''cd: no such file or directory: nowhere'', [],
             ''jsh: stopped at '' @ invokedAs @ '':2'', ''jsh: cd nowhere'',
             ''jsh: cd: no such file or directory: nowhere'', []]"
proof -
  let ?mods = "commandModules ext rs"
  let ?g = "\<lambda>c. VfsFolder (fname c) (folders c @ [VfsFolder ''x'' [] []]) (files c)"
  let ?v1 = "written (mutateFolder (cwdParts (state (vfs sh))) ?g (vfs sh))"
  have nex: "\<not> ((\<exists>f \<in> set (folders cwd). fname f = ''x'') \<or> (\<exists>f \<in> set (files cwd). name f = Some ''x''))"
    using nofolder nofile by blast
  have sn: "snd (mkdir ''x'' (vfs sh)) = ?v1"
    using cwd nex by (simp add: mkdir_def)
  have mk: "mkdir ''x'' (vfs sh) = (Inr (), ?v1)"
    unfolding mkdir_ok_iff using cwd nofolder nofile stores [unfolded sn] by auto
  let ?sh1 = "print [] (sh\<lparr>vfs := ?v1\<rparr>)"
  have d1: "dispatchStrict ?mods sh ''mkdir'' [''x''] =
      (\<lparr>sok = True, shandled = True, sshouldContinue = True, serror = None\<rparr>, ?sh1)"
    by (rule dispatch_mkdir_ok [OF mk])
  have r0: "resolveFrom (root (state (vfs sh))) (cwdParts (state (vfs sh))) = Some cwd"
    using cwd by (simp add: getCwdFolder_def resolveFolder_def)
  have cwd1: "getCwdFolder ?v1 = Some (?g cwd)"
    using resolveFrom_modifyFolder [of ?g "root (state (vfs sh))" "cwdParts (state (vfs sh))" cwd] r0
    by (simp add: getCwdFolder_def resolveFolder_def)
  have "find (\<lambda>g. fname g = ''nowhere'') (folders cwd) = None"
    using nofolder by (induction "folders cwd") (auto simp: find_None_iff)
  then have "resolveFolder ?v1 (cwdParts (state ?v1) @ [''nowhere'']) = None"
    using cwd1 by (simp add: getCwdFolder_def resolveFolder_def resolveFrom_append find_append_miss)
  then have cd: "changeDirectory ''nowhere'' (vfs ?sh1) = (Inl (CdNoSuch ''nowhere''), vfs ?sh1)"
    by (simp add: changeDirectory_def print_def normalize_bare_name)
  let ?sh2 = "print [] (print (errorMessage (CdNoSuch ''nowhere'')) (?sh1\<lparr>vfs := vfs ?sh1\<rparr>))"
  have d2: "dispatchStrict ?mods ?sh1 ''cd'' [''nowhere''] =
      (\<lparr>sok = False, shandled = True, sshouldContinue = True,
        serror = Some (errorMessage (CdNoSuch ''nowhere''))\<rparr>, ?sh2)"
    by (rule dispatch_cd_fails [OF cd]) simp
  let ?sh' = "print [] (print (''jsh: '' @ errorText (Some (errorMessage (CdNoSuch ''nowhere''))))
      (print (''jsh: '' @ ''cd nowhere'')
        (print (''jsh: stopped at '' @ invokedAs @ '':'' @ showNat (0 + length [''mkdir x''] + 1)) ?sh2)))"
  have pre: "okPrefix ?mods [''mkdir x''] sh = Some ?sh1"
    using d1 by (simp add: Let_def)
  have run: "runJshLines ?mods invokedAs 0 ([''mkdir x''] @ ''cd nowhere'' # [''mkdir y'']) sh
      = (\<lparr>rhandled = True, rshouldContinue = True\<rparr>, ?sh')"
  proof -
    let ?r2 = "\<lparr>sok = False, shandled = True, sshouldContinue = True,
        serror = Some (errorMessage (CdNoSuch ''nowhere''))\<rparr>"
    have c2: "command (parseSimpleCommandLine ''cd nowhere'') \<noteq> []" by simp
    have d2': "dispatchStrict ?mods ?sh1 (command (parseSimpleCommandLine ''cd nowhere''))
        (args (parseSimpleCommandLine ''cd nowhere'')) = (?r2, ?sh2)"
      using d2 by simp
    have nok: "\<not> sok ?r2" by simp
    show ?thesis
      using runJshLines_stops [OF pre c2 d2' nok, of invokedAs 0 "[''mkdir y'']"] by simp
  qed
  have two: "char_of (50::nat) = CHR ''2''" by code_simp
  have "vfs ?sh' = snd (mkdir ''x'' (vfs sh))" by (simp add: mk print_def)
  moreover have "getCwdFolder (vfs ?sh') = Some (?g cwd)" using cwd1 by (simp add: print_def)
  moreover have "printed ?sh' = printed sh @ [[], ''cd: no such file or directory: nowhere'', [],
             ''jsh: stopped at '' @ invokedAs @ '':2'', ''jsh: cd nowhere'',
             ''jsh: cd: no such file or directory: nowhere'', []]"
    by (simp add: print_def errorText_def two)
  ultimately show ?thesis using run by (intro exI [where x = "?sh'"]) simp
qed


text \<open>
  C4 (amended). Strict per-line dispatch stops at the first line that does not succeed and
  runs no later line: if the lines \<open>pre\<close> all succeed and the next line \<open>l\<close> is dispatched
  with \<^verbatim>\<open>ok === false\<close>, the script returns with the shell that \<open>l\<close> left, plus the report of
  the line number and the text of \<open>l\<close>, whatever the later lines \<open>post\<close> are. A dispatch
  has \<^verbatim>\<open>ok === false\<close> exactly when a handler threw, none handled the command, or the handler
  reported \<^verbatim>\<open>ok: false\<close>. For the lines \<^verbatim>\<open>mkdir x\<close>, \<^verbatim>\<open>cd nowhere\<close>, \<^verbatim>\<open>mkdir y\<close>, in a state whose
  cwd has no folder and no file named \<^verbatim>\<open>x\<close> and no folder named \<^verbatim>\<open>nowhere\<close>, and whose storage
  stores the state that \<^verbatim>\<open>mkdir x\<close> saves: folder \<^verbatim>\<open>x\<close> is created, the script stops at line 2
  with the line number and the line text printed, and the cwd's folders are the old ones and
  \<^verbatim>\<open>x\<close> (no \<^verbatim>\<open>y\<close> is created).
\<close>

theorem jsh_script_stops_at_first_failure:
  "(okPrefix mods pre sh = Some sh1 \<and> command (parseSimpleCommandLine l) \<noteq> [] \<and>
      dispatchStrict mods sh1 (command (parseSimpleCommandLine l)) (args (parseSimpleCommandLine l)) = (r, sh2) \<and>
      \<not> sok r \<longrightarrow>
      runJshLines mods invokedAs i (pre @ l # post) sh =
        (\<lparr>rhandled = True, rshouldContinue = True\<rparr>,
         print [] (print (''jsh: '' @ errorText (serror r)) (print (''jsh: '' @ l)
           (print (''jsh: stopped at '' @ invokedAs @ '':'' @ showNat (i + length pre + 1)) sh2)))))
   \<and> (\<not> sok (fst (dispatchStrict mods sh c a)) \<longleftrightarrow>
        c \<noteq> [] \<and> (case fst (dispatchRegisteredModules mods sh c a) of
                     Inl e \<Rightarrow> True
                   | Inr res \<Rightarrow> \<not> dhandled res \<or> dok res = Some False))
   \<and> (getCwdFolder (vfs sh) = Some cwd \<and>
        (\<forall>f \<in> set (folders cwd). fname f \<noteq> ''x'' \<and> fname f \<noteq> ''nowhere'') \<and>
        (\<forall>f \<in> set (files cwd). name f \<noteq> Some ''x'') \<and>
        setItemThrows (storage (vfs sh)) (state (snd (mkdir ''x'' (vfs sh)))) = None \<longrightarrow>
        (\<exists>sh'. runJshLines (commandModules ext rs) invokedAs 0 [''mkdir x'', ''cd nowhere'', ''mkdir y''] sh
            = (\<lparr>rhandled = True, rshouldContinue = True\<rparr>, sh')
          \<and> vfs sh' = snd (mkdir ''x'' (vfs sh))
          \<and> getCwdFolder (vfs sh') = Some (VfsFolder (fname cwd) (folders cwd @ [VfsFolder ''x'' [] []]) (files cwd))
          \<and> printed sh' = printed sh @ [[], ''cd: no such file or directory: nowhere'', [],
               ''jsh: stopped at '' @ invokedAs @ '':2'', ''jsh: cd nowhere'',
               ''jsh: cd: no such file or directory: nowhere'', []]))"
proof (intro conjI impI)
  assume "okPrefix mods pre sh = Some sh1 \<and> command (parseSimpleCommandLine l) \<noteq> [] \<and>
      dispatchStrict mods sh1 (command (parseSimpleCommandLine l)) (args (parseSimpleCommandLine l)) = (r, sh2) \<and>
      \<not> sok r"
  then show "runJshLines mods invokedAs i (pre @ l # post) sh =
        (\<lparr>rhandled = True, rshouldContinue = True\<rparr>,
         print [] (print (''jsh: '' @ errorText (serror r)) (print (''jsh: '' @ l)
           (print (''jsh: stopped at '' @ invokedAs @ '':'' @ showNat (i + length pre + 1)) sh2))))"
    using runJshLines_stops by blast
next
  show "\<not> sok (fst (dispatchStrict mods sh c a)) \<longleftrightarrow>
        c \<noteq> [] \<and> (case fst (dispatchRegisteredModules mods sh c a) of
                     Inl e \<Rightarrow> True
                   | Inr res \<Rightarrow> \<not> dhandled res \<or> dok res = Some False)"
    by (rule dispatchStrict_not_ok)
next
  assume "getCwdFolder (vfs sh) = Some cwd \<and>
        (\<forall>f \<in> set (folders cwd). fname f \<noteq> ''x'' \<and> fname f \<noteq> ''nowhere'') \<and>
        (\<forall>f \<in> set (files cwd). name f \<noteq> Some ''x'') \<and>
        setItemThrows (storage (vfs sh)) (state (snd (mkdir ''x'' (vfs sh)))) = None"
  then show "\<exists>sh'. runJshLines (commandModules ext rs) invokedAs 0 [''mkdir x'', ''cd nowhere'', ''mkdir y''] sh
            = (\<lparr>rhandled = True, rshouldContinue = True\<rparr>, sh')
          \<and> vfs sh' = snd (mkdir ''x'' (vfs sh))
          \<and> getCwdFolder (vfs sh') = Some (VfsFolder (fname cwd) (folders cwd @ [VfsFolder ''x'' [] []]) (files cwd))
          \<and> printed sh' = printed sh @ [[], ''cd: no such file or directory: nowhere'', [],
               ''jsh: stopped at '' @ invokedAs @ '':2'', ''jsh: cd nowhere'',
               ''jsh: cd: no such file or directory: nowhere'', []]"
    using script_example [of sh cwd ext rs invokedAs] by simp
qed

lemma scriptText_lines [simp]: "splitLines scriptText = [''mkdir x'', ''cd nowhere'', ''mkdir y'']"
  by (simp add: splitLines_def scriptText_def)

lemma script_path [simp]: "normalizePathFromCwd ''/'' ''s.jsh'' = ''/s.jsh''"
  by (simp add: normalizePathFromCwd_def normalizePathParts_def startsWith_def normStep_def)

lemma script_parts [simp]: "normalizePathParts [] ''/s.jsh'' = [''s.jsh'']"
  by (simp add: normalizePathParts_def startsWith_def normStep_def)

text \<open>
  C4 as stated fails where the cwd has no folder \<^verbatim>\<open>x\<close> and no folder \<^verbatim>\<open>nowhere\<close> but a file
  named \<^verbatim>\<open>x\<close>: \<^verbatim>\<open>mkdir x\<close> fails, the script stops at line 1 and no folder is created.
  It also fails where the storage has no room: \<^verbatim>\<open>mkdir x\<close> pushes the folder and then
  passes on the exception of \<^verbatim>\<open>setItem\<close>, and the script stops at line 1.
\<close>

theorem jsh_script_file_named_x_counterexample:
  "fst (runJshScript (commandModules noExt idleRunner) shellWithFileX ''./s.jsh'')
     = \<lparr>rhandled = True, rshouldContinue = True\<rparr>
   \<and> folders (root (state (vfs (snd (runJshScript (commandModules noExt idleRunner) shellWithFileX ''./s.jsh''))))) = []
   \<and> printed (snd (runJshScript (commandModules noExt idleRunner) shellWithFileX ''./s.jsh''))
     = [''mkdir: cannot create directory '' @ [squote] @ ''x'' @ [squote] @ '': File exists'', [],
        ''jsh: stopped at ./s.jsh:1'', ''jsh: mkdir x'', ''jsh: mkdir: one or more operations failed'', []]
   \<and> fst (runJshScript (commandModules noExt idleRunner) shellWithoutRoom ''./s.jsh'')
     = \<lparr>rhandled = True, rshouldContinue = True\<rparr>
   \<and> folders (root (state (vfs (snd (runJshScript (commandModules noExt idleRunner) shellWithoutRoom ''./s.jsh'')))))
     = [VfsFolder ''x'' [] []]
   \<and> printed (snd (runJshScript (commandModules noExt idleRunner) shellWithoutRoom ''./s.jsh''))
     = [''QuotaExceededError'', [],
        ''jsh: stopped at ./s.jsh:1'', ''jsh: mkdir x'', ''jsh: mkdir: one or more operations failed'', []]"
proof -
  have c49: "char_of (49::nat) = CHR ''1''" by code_simp
  let ?vq = "written (mutateFolder []
      (\<lambda>c. VfsFolder (fname c) (folders c @ [VfsFolder ''x'' [] []]) (files c)) (vfs shellWithoutRoom))"
  have rdq: "readFile ''/s.jsh'' (vfs shellWithoutRoom) = (Inr scriptText, vfs shellWithoutRoom)"
    by (simp add: readFile_def getFile_def resolveFolder_def popName_def shellWithoutRoom_def)
  have mkq: "mkdir ''x'' (vfs shellWithoutRoom) = (Inl (SetItemThrew ''QuotaExceededError''), ?vq)"
    by (simp add: mkdir_def getCwdFolder_def resolveFolder_def shellWithoutRoom_def save_eq saveOutcome_def)
  have stq: "folders (root (state ?vq)) = [VfsFolder ''x'' [] []]"
    by (simp add: shellWithoutRoom_def)
  have dq: "dispatchStrict (commandModules noExt idleRunner) shellWithoutRoom ''mkdir'' [''x''] =
      (\<lparr>sok = False, shandled = True, sshouldContinue = True,
        serror = Some ''mkdir: one or more operations failed''\<rparr>,
       print [] (print (errorMessage (SetItemThrew ''QuotaExceededError'')) (shellWithoutRoom\<lparr>vfs := ?vq\<rparr>)))"
    using mkq
    by (simp add: dispatchStrict_def commandModules_def gated_def gatedExact_def executeExitCommand_def
      executeMkdirCommand_def notHandled_def handledFailed_def)
  have runq: "runJshScript (commandModules noExt idleRunner) shellWithoutRoom ''./s.jsh'' =
      (\<lparr>rhandled = True, rshouldContinue = True\<rparr>,
       print [] (print (''jsh: '' @ errorText (Some ''mkdir: one or more operations failed''))
         (print (''jsh: '' @ ''mkdir x'') (print (''jsh: stopped at '' @ ''./s.jsh'' @ '':'' @ showNat 1)
           (print [] (print (errorMessage (SetItemThrew ''QuotaExceededError''))
             (shellWithoutRoom\<lparr>vfs := ?vq\<rparr>)))))))"
    unfolding runJshScript_def
    by (simp add: rdq dq getCwdPath_def Let_def
        shellWithoutRoom_def [THEN arg_cong, of "\<lambda>s. cwdParts (state (vfs s))"])
  have q: "fst (runJshScript (commandModules noExt idleRunner) shellWithoutRoom ''./s.jsh'')
     = \<lparr>rhandled = True, rshouldContinue = True\<rparr>
   \<and> folders (root (state (vfs (snd (runJshScript (commandModules noExt idleRunner) shellWithoutRoom ''./s.jsh'')))))
     = [VfsFolder ''x'' [] []]
   \<and> printed (snd (runJshScript (commandModules noExt idleRunner) shellWithoutRoom ''./s.jsh''))
     = [''QuotaExceededError'', [],
        ''jsh: stopped at ./s.jsh:1'', ''jsh: mkdir x'', ''jsh: mkdir: one or more operations failed'', []]"
    unfolding runq by (simp add: print_def errorText_def c49 stq shellWithoutRoom_def)
  have rd: "readFile ''/s.jsh'' (vfs shellWithFileX) = (Inr scriptText, vfs shellWithFileX)"
    by (simp add: readFile_def getFile_def resolveFolder_def popName_def shellWithFileX_def)
  have mk: "mkdir ''x'' (vfs shellWithFileX) = (Inl (MkdirExists ''x''), vfs shellWithFileX)"
    by (simp add: mkdir_def getCwdFolder_def resolveFolder_def shellWithFileX_def)
  have d: "dispatchStrict (commandModules noExt idleRunner) shellWithFileX ''mkdir'' [''x''] =
      (\<lparr>sok = False, shandled = True, sshouldContinue = True,
        serror = Some ''mkdir: one or more operations failed''\<rparr>,
       print [] (print (errorMessage (MkdirExists ''x'')) shellWithFileX))"
    using mk
    by (simp add: dispatchStrict_def commandModules_def gated_def gatedExact_def executeExitCommand_def
      executeMkdirCommand_def notHandled_def handledFailed_def)
  have run: "runJshScript (commandModules noExt idleRunner) shellWithFileX ''./s.jsh'' =
      (\<lparr>rhandled = True, rshouldContinue = True\<rparr>,
       print [] (print (''jsh: '' @ errorText (Some ''mkdir: one or more operations failed''))
         (print (''jsh: '' @ ''mkdir x'') (print (''jsh: stopped at '' @ ''./s.jsh'' @ '':'' @ showNat 1)
           (print [] (print (errorMessage (MkdirExists ''x'')) shellWithFileX))))))"
    unfolding runJshScript_def
    by (simp add: rd d getCwdPath_def Let_def shellWithFileX_def [THEN arg_cong, of "\<lambda>s. cwdParts (state (vfs s))"])
  have p: "fst (runJshScript (commandModules noExt idleRunner) shellWithFileX ''./s.jsh'')
     = \<lparr>rhandled = True, rshouldContinue = True\<rparr>
   \<and> folders (root (state (vfs (snd (runJshScript (commandModules noExt idleRunner) shellWithFileX ''./s.jsh''))))) = []
   \<and> printed (snd (runJshScript (commandModules noExt idleRunner) shellWithFileX ''./s.jsh''))
     = [''mkdir: cannot create directory '' @ [squote] @ ''x'' @ [squote] @ '': File exists'', [],
        ''jsh: stopped at ./s.jsh:1'', ''jsh: mkdir x'', ''jsh: mkdir: one or more operations failed'', []]"
    unfolding run by (simp add: print_def errorText_def c49 shellWithFileX_def)
  show ?thesis using p q by (simp only: simp_thms)
qed

theorem jsh_script_stops_at_first_failure_witness:
  "(\<exists>sh'. runJshLines (commandModules noExt idleRunner) ''./s.jsh'' 0 [''mkdir x'', ''cd nowhere'', ''mkdir y''] shellWithScript
            = (\<lparr>rhandled = True, rshouldContinue = True\<rparr>, sh')
      \<and> vfs sh' = snd (mkdir ''x'' (vfs shellWithScript))
      \<and> getCwdFolder (vfs sh') = Some (VfsFolder ''/'' [VfsFolder ''x'' [] []] [VfsFile (Some ''s.jsh'') scriptText])
      \<and> printed sh' = [[], ''cd: no such file or directory: nowhere'', [],
           ''jsh: stopped at ./s.jsh:2'', ''jsh: cd nowhere'',
           ''jsh: cd: no such file or directory: nowhere'', []])
   \<and> runJshLines (commandModules noExt idleRunner) ''./s.jsh'' 0 ([] @ ''cd nowhere'' # [''mkdir y'']) shellWithScript =
        (\<lparr>rhandled = True, rshouldContinue = True\<rparr>,
         print [] (print (''jsh: '' @ errorText (Some (errorMessage (CdNoSuch ''nowhere''))))
           (print (''jsh: '' @ ''cd nowhere'')
             (print (''jsh: stopped at '' @ ''./s.jsh'' @ '':'' @ showNat (0 + length ([]::string list) + 1))
               (print [] (print (errorMessage (CdNoSuch ''nowhere'')) shellWithScript))))))"
proof -
  let ?mods = "commandModules noExt idleRunner"
  let ?root = "VfsFolder ''/'' [] [VfsFile (Some ''s.jsh'') scriptText]"
  have h3: "getCwdFolder (vfs shellWithScript) = Some ?root \<and>
        (\<forall>f \<in> set (folders ?root). fname f \<noteq> ''x'' \<and> fname f \<noteq> ''nowhere'') \<and>
        (\<forall>f \<in> set (files ?root). name f \<noteq> Some ''x'') \<and>
        setItemThrows (storage (vfs shellWithScript)) (state (snd (mkdir ''x'' (vfs shellWithScript)))) = None"
    by (simp add: getCwdFolder_def resolveFolder_def shellWithScript_def)
  note a = jsh_script_stops_at_first_failure [where sh = shellWithScript and cwd = ?root
      and ext = noExt and rs = idleRunner and invokedAs = "''./s.jsh''",
      THEN conjunct2, THEN conjunct2, rule_format, OF h3]
  have cd: "changeDirectory ''nowhere'' (vfs shellWithScript) = (Inl (CdNoSuch ''nowhere''), vfs shellWithScript)"
    by (simp add: changeDirectory_def normalize_bare_name resolveFolder_def shellWithScript_def)
  let ?r = "\<lparr>sok = False, shandled = True, sshouldContinue = True,
        serror = Some (errorMessage (CdNoSuch ''nowhere''))\<rparr>"
  let ?sh2 = "print [] (print (errorMessage (CdNoSuch ''nowhere'')) shellWithScript)"
  have h1: "okPrefix ?mods [] shellWithScript = Some shellWithScript \<and>
      command (parseSimpleCommandLine ''cd nowhere'') \<noteq> [] \<and>
      dispatchStrict ?mods shellWithScript (command (parseSimpleCommandLine ''cd nowhere''))
        (args (parseSimpleCommandLine ''cd nowhere'')) = (?r, ?sh2) \<and>
      \<not> sok ?r"
    using dispatch_cd_fails [OF cd, of noExt idleRunner] by simp
  note b = jsh_script_stops_at_first_failure [where mods = ?mods and pre = "[]" and sh = shellWithScript
      and ?sh1.0 = shellWithScript and l = "''cd nowhere''" and r = ?r and ?sh2.0 = ?sh2
      and invokedAs = "''./s.jsh''" and i = 0 and post = "[''mkdir y'']",
      THEN conjunct1, rule_format, OF h1]
  have a': "\<exists>sh'. runJshLines ?mods ''./s.jsh'' 0 [''mkdir x'', ''cd nowhere'', ''mkdir y''] shellWithScript
            = (\<lparr>rhandled = True, rshouldContinue = True\<rparr>, sh')
      \<and> vfs sh' = snd (mkdir ''x'' (vfs shellWithScript))
      \<and> getCwdFolder (vfs sh') = Some (VfsFolder ''/'' [VfsFolder ''x'' [] []] [VfsFile (Some ''s.jsh'') scriptText])
      \<and> printed sh' = [[], ''cd: no such file or directory: nowhere'', [],
           ''jsh: stopped at ./s.jsh:2'', ''jsh: cd nowhere'',
           ''jsh: cd: no such file or directory: nowhere'', []]"
    using a by (simp add: shellWithScript_def)
  show ?thesis using a' b by (intro conjI) simp_all
qed
section \<open>The PATH fallback\<close>

lemma searchPath_find:
  "searchPath dirs f v = map_option (scriptPathIn f) (find (holdsScript v f) dirs)"
proof (induction dirs f v rule: searchPath.induct)
  case (1 fileName v)
  then show ?case by simp
next
  case (2 dirs fileName v)
  then show ?case by (simp add: holdsScript_def)
next
  case (3 dir dirs fileName v)
  then show ?case
    by (auto simp: holdsScript_def scriptPathIn_def split: sum.splits)
qed

lemma resolveScriptOnPath_find:
  "resolveScriptOnPath e v cmd =
     (if cmd = [] \<or> slash \<in> set cmd then None
      else map_option (scriptPathIn (fileNameFor cmd)) (find (holdsScript v (fileNameFor cmd)) (PATH e)))"
  by (simp add: resolveScriptOnPath_def fileNameFor_def searchPath_find Let_def)

lemma executeVfsScript_runs:
  "readFile p (vfs sh) = (Inr src, v) \<Longrightarrow> cmd \<noteq> [] \<Longrightarrow>
   executeVfsScript rs sh p as cmd =
     (Returned (Some \<lparr>handled = True, shouldContinue = Some True,
        ok = Some (fst (fst (rs sh cmd as src))), error = snd (fst (rs sh cmd as src))\<rparr>),
      print [] (snd (rs sh cmd as src)))"
  by (simp add: executeVfsScript_def split: prod.splits)

lemma pathFallback_runs:
  assumes "resolveScriptOnPath e (vfs sh) cmd = Some p" and "readFile p (vfs sh) = (Inr src, v)"
  shows "pathFallback e rs False sc0 cmd as sh = (True, print [] (snd (rs sh cmd as src)))"
proof -
  from assms(1) have ne: "cmd \<noteq> []" by (auto simp: resolveScriptOnPath_def split: if_splits)
  show ?thesis
    using assms ne executeVfsScript_runs [OF assms(2) ne, of rs as]
    by (simp add: pathFallback_def)
qed


lemma splitOn_append_sep_any: "splitOn c (xs @ c # ys) = splitOn c xs @ splitOn c ys"
proof (induction xs)
  case Nil
  then show ?case by simp
next
  case (Cons x xs)
  obtain y ys' where "splitOn c xs = y # ys'"
    using splitOn_nonempty [of c xs] by (cases "splitOn c xs") auto
  with Cons show ?case by auto
qed

lemma rawParts_strip_trailing:
  "filter (\<lambda>p. p \<noteq> [] \<and> p \<noteq> ''.'') (splitOn slash (rev (dropWhile (\<lambda>c. c = slash) (rev d))))
   = filter (\<lambda>p. p \<noteq> [] \<and> p \<noteq> ''.'') (splitOn slash d)"
proof (induction d rule: rev_induct)
  case Nil
  then show ?case by simp
next
  case (snoc x xs)
  show ?case
  proof (cases "x = slash")
    case True
    have "splitOn slash (xs @ [slash]) = splitOn slash xs @ [[]]"
      using splitOn_append_sep_any [of slash xs "[]"] by simp
    then show ?thesis using True snoc by simp
  next
    case False
    then show ?thesis by simp
  qed
qed

lemma strip_trailing_prefix:
  "rev (dropWhile P (rev d)) @ rev (takeWhile P (rev d)) = d"
  by (metis rev_append rev_rev_ident takeWhile_dropWhile_id)

lemma fileNameFor_length: "3 \<le> length (fileNameFor cmd)"
  by (simp add: fileNameFor_def endsWith_def)

lemma fileNameFor_clean:
  assumes "cmd \<noteq> []" "slash \<notin> set cmd"
  shows "fileNameFor cmd \<noteq> []" "slash \<notin> set (fileNameFor cmd)"
    "fileNameFor cmd \<noteq> ''.''" "fileNameFor cmd \<noteq> ''..''"
proof -
  show "fileNameFor cmd \<noteq> []" using fileNameFor_length [of cmd] by auto
  show "slash \<notin> set (fileNameFor cmd)" using assms(2) by (simp add: fileNameFor_def)
  show "fileNameFor cmd \<noteq> ''.''" using fileNameFor_length [of cmd] by auto
  show "fileNameFor cmd \<noteq> ''..''" using fileNameFor_length [of cmd] by auto
qed

lemma normalize_absolute:
  "startsWith p ''/'' \<Longrightarrow>
   normalizePathParts cwd p = foldl normStep [] (filter (\<lambda>p. p \<noteq> [] \<and> p \<noteq> ''.'') (splitOn slash p))"
  by (cases p) (auto simp: normalizePathParts_def startsWith_def Let_def)

lemma rawParts_joined:
  "f \<noteq> [] \<Longrightarrow> slash \<notin> set f \<Longrightarrow> f \<noteq> ''.'' \<Longrightarrow>
   filter (\<lambda>p. p \<noteq> [] \<and> p \<noteq> ''.'') (splitOn slash (rev (dropWhile (\<lambda>c. c = slash) (rev d)) @ slash # f))
   = filter (\<lambda>p. p \<noteq> [] \<and> p \<noteq> ''.'') (splitOn slash d) @ [f]"
  by (simp only: splitOn_append_sep_any filter_append rawParts_strip_trailing) (simp add: splitOn_plain)

lemma foldl_normStep_snoc: "f \<noteq> ''..'' \<Longrightarrow> foldl normStep acc (xs @ [f]) = foldl normStep acc xs @ [f]"
  by (simp add: normStep_def)

lemma joined_path_parts:
  assumes abs: "startsWith d ''/''" and f: "f \<noteq> []" "slash \<notin> set f" "f \<noteq> ''.''" "f \<noteq> ''..''"
  shows "normalizePathParts cwd (joinVfsPath d f) = normalizePathParts cwd d @ [f]"
proof -
  let ?base = "rev (dropWhile (\<lambda>c. c = slash) (rev d))"
  from abs obtain d' where d: "d = slash # d'" by (cases d) (auto simp: startsWith_def)
  have leaf: "dropWhile (\<lambda>c. c = slash) f = f" using f(1,2) by (cases f) auto
  have path: "joinVfsPath d f = ?base @ slash # f" by (simp add: joinVfsPath_def leaf)
  have absp: "startsWith (?base @ slash # f) ''/''"
  proof (cases "?base = []")
    case True
    show ?thesis unfolding True by (simp add: startsWith_def)
  next
    case False
    then obtain b bs where b: "?base = b # bs" by (cases ?base) auto
    have "?base @ rev (takeWhile (\<lambda>c. c = slash) (rev d)) = d" by (rule strip_trailing_prefix)
    then have "b = slash" using b d by (metis append_Cons list.inject)
    then show ?thesis unfolding b by (simp add: startsWith_def)
  qed
  have "normalizePathParts cwd (?base @ slash # f) =
      foldl normStep [] (filter (\<lambda>p. p \<noteq> [] \<and> p \<noteq> ''.'') (splitOn slash d) @ [f])"
    unfolding normalize_absolute [OF absp] rawParts_joined [OF f(1,2,3)] ..
  also have "\<dots> = foldl normStep [] (filter (\<lambda>p. p \<noteq> [] \<and> p \<noteq> ''.'') (splitOn slash d)) @ [f]"
    by (rule foldl_normStep_snoc [OF f(4)])
  also have "foldl normStep [] (filter (\<lambda>p. p \<noteq> [] \<and> p \<noteq> ''.'') (splitOn slash d)) = normalizePathParts cwd d"
    by (rule normalize_absolute [OF abs, symmetric])
  finally show ?thesis unfolding path .
qed

lemma found_script_readable:
  assumes h: "holdsScript v f (JString d)" and f: "f \<noteq> []" "slash \<notin> set f" "f \<noteq> ''.''" "f \<noteq> ''..''"
  shows "\<exists>src. readFile (joinVfsPath d f) v = (Inr src, v)"
proof -
  from h have abs: "startsWith d ''/''" by (simp add: holdsScript_def)
  then have "d \<noteq> ''.''" by (auto simp: startsWith_def)
  with h obtain folder where fo: "resolveFolder v (normalizePathParts (cwdParts (state v)) d) = Some folder"
    and mem: "Some f \<in> set (map name (files folder))"
    by (auto simp: holdsScript_def list_def split: option.splits)
  from mem have "find (\<lambda>x. name x = Some f) (files folder) \<noteq> None"
    by (auto simp: find_None_iff)
  then obtain fl where "find (\<lambda>x. name x = Some f) (files folder) = Some fl" by auto
  then have "readFile (joinVfsPath d f) v = (Inr (content fl), v)"
    using fo by (simp add: readFile_def getFile_def joined_path_parts [OF abs f] popName_def)
  then show ?thesis by blast
qed

lemma resolved_script_readable:
  assumes "resolveScriptOnPath e v cmd = Some p"
  shows "\<exists>src. readFile p v = (Inr src, v)"
proof -
  from assms have c: "cmd \<noteq> []" "slash \<notin> set cmd"
    by (auto simp: resolveScriptOnPath_def split: if_splits)
  with assms obtain x where x: "find (holdsScript v (fileNameFor cmd)) (PATH e) = Some x"
    and p: "p = scriptPathIn (fileNameFor cmd) x"
    by (auto simp: resolveScriptOnPath_find)
  from x have hx: "holdsScript v (fileNameFor cmd) x" by (auto dest: find_Some_P)
  then obtain d where d: "x = JString d" by (cases x) (auto simp: holdsScript_def)
  show ?thesis
    using found_script_readable [OF hx [unfolded d] fileNameFor_clean [OF c]] p d
    by (simp add: scriptPathIn_def)
qed


lemma startsWith_dotslash: "startsWith cmd ''./'' \<Longrightarrow> slash \<in> set cmd"
proof -
  assume "startsWith cmd ''./''"
  then have "take (length ''./'') cmd = ''./''" by (simp add: startsWith_def)
  then have "slash \<in> set (take (length ''./'') cmd)" by simp
  then show ?thesis by (rule in_set_takeD)
qed

text \<open>
  C3 (amended). In a round of the main loop (lenient dispatch) in which no handler handles the
  command, the dispatcher looks the command up on \<^verbatim>\<open>env.PATH\<close>: nothing is searched for an
  empty command or one with a slash; otherwise the file name is the command with \<^verbatim>\<open>.js\<close>
  appended (the command itself if it already ends in \<^verbatim>\<open>.js\<close>), and the first entry of
  \<^verbatim>\<open>PATH\<close>, in order, that is a string starting with \<^verbatim>\<open>/\<close> and whose listing succeeds and has
  that file wins; all other entries are skipped. The script found is readable, and it is run
  with the command as it is after alias expansion as its \<^verbatim>\<open>command\<close> argument.
\<close>

theorem path_fallback_runs_expanded_command:
  "(expandAliases (ALIAS e) (command (parseCommandLine (trim input)))
        (args (parseCommandLine (trim input))) 5 = Some (cmd, as) \<and>
      trim input \<noteq> [] \<and>
      runHandlers mods (recordHistory (trim input) sh0) cmd as = (Inr (False, sc0), sh1) \<and>
      resolveScriptOnPath e (vfs sh1) cmd = Some p
      \<longrightarrow> (\<exists>src. readFile p (vfs sh1) = (Inr src, vfs sh1) \<and>
             mainLoopStep e mods rs recordHistory input sh0
               = Some (True, print [] (snd (rs sh1 cmd as src)))))
   \<and> resolveScriptOnPath e v c =
       (if c = [] \<or> slash \<in> set c then None
        else map_option (scriptPathIn (fileNameFor c)) (find (holdsScript v (fileNameFor c)) (PATH e)))"
proof (intro conjI impI)
  assume h: "expandAliases (ALIAS e) (command (parseCommandLine (trim input)))
        (args (parseCommandLine (trim input))) 5 = Some (cmd, as) \<and>
      trim input \<noteq> [] \<and>
      runHandlers mods (recordHistory (trim input) sh0) cmd as = (Inr (False, sc0), sh1) \<and>
      resolveScriptOnPath e (vfs sh1) cmd = Some p"
  then have rs: "resolveScriptOnPath e (vfs sh1) cmd = Some p" by simp
  then have "slash \<notin> set cmd" by (auto simp: resolveScriptOnPath_def split: if_splits)
  then have nojsh: "\<not> startsWith cmd ''./''" using startsWith_dotslash by blast
  obtain src where src: "readFile p (vfs sh1) = (Inr src, vfs sh1)"
    using resolved_script_readable [OF rs] by blast
  have "mainLoopStep e mods rs recordHistory input sh0 = Some (True, print [] (snd (rs sh1 cmd as src)))"
    using h nojsh pathFallback_runs [OF rs src, of rs sc0 as]
    by (simp add: mainLoopStep_def Let_def)
  with src show "\<exists>src. readFile p (vfs sh1) = (Inr src, vfs sh1) \<and>
             mainLoopStep e mods rs recordHistory input sh0
               = Some (True, print [] (snd (rs sh1 cmd as src)))"
    by blast
next
  show "resolveScriptOnPath e v c =
       (if c = [] \<or> slash \<in> set c then None
        else map_option (scriptPathIn (fileNameFor c)) (find (holdsScript v (fileNameFor c)) (PATH e)))"
    by (rule resolveScriptOnPath_find)
qed

lemma parse_s [simp]: "parseCommandLine ''s'' = \<lparr>command = ''s'', args = []\<rparr>"
  by (simp add: parseCommandLine_def tokenizeCommandLine_def initTokState_def startAt_def
      pushToken_def isWhitespace_def Let_def)

lemma parse_sample [simp]: "parseCommandLine ''sample'' = \<lparr>command = ''sample'', args = []\<rparr>"
  by (simp add: parseCommandLine_def tokenizeCommandLine_def initTokState_def startAt_def
      pushToken_def isWhitespace_def Let_def)

lemma sample_expand: "expandAliases (ALIAS sampleEnv) ''s'' [] 5 = Some (''sample'', [])"
  unfolding expandAliases_def
  apply (subst expandLoop.simps, simp add: expandAliasesOnce_def sampleEnv_def trim_def jsSpace_def)
  apply (subst expandLoop.simps, simp add: expandAliasesOnce_def sampleEnv_def trim_def jsSpace_def)
  done

lemma toLowerCase_sample [simp]: "toLowerCase ''sample'' = ''sample''"
  by (simp add: toLowerCase_def toLowerChar_def)

lemma sample_unhandled:
  "runHandlers (commandModules noExt echoRunner) sh ''sample'' [] = (Inr (False, True), sh)"
  by (simp add: commandModules_def gated_def gatedExact_def executeExitCommand_def executeMkdirCommand_def
      executeRmdirCommand_def executeCdCommand_def executeTouchCommand_def executeScriptFile_def
      notHandled_def startsWith_def)

lemma sample_resolved:
  "resolveScriptOnPath sampleEnv (vfs shellWithSample) ''sample'' = Some ''/bin/sample.js''"
  by (simp add: resolveScriptOnPath_def sampleEnv_def endsWith_def startsWith_def list_def
      resolveFolder_def normalizePathParts_def normStep_def joinVfsPath_def shellWithSample_def)

lemma sample_read:
  "readFile ''/bin/sample.js'' (vfs shellWithSample) = (Inr ''source'', vfs shellWithSample)"
  by (simp add: readFile_def getFile_def resolveFolder_def normalizePathParts_def startsWith_def
      normStep_def popName_def shellWithSample_def)

text \<open>
  C3 as stated fails with an alias: with \<^verbatim>\<open>ALIAS = {s: "sample"}\<close> and \<^verbatim>\<open>/bin/sample.js\<close> on the
  path, the input \<^verbatim>\<open>s\<close> runs the script with \<^verbatim>\<open>command = "sample"\<close>, not the typed \<^verbatim>\<open>s\<close>.
\<close>

theorem path_fallback_alias_counterexample:
  "mainLoopStep sampleEnv (commandModules noExt echoRunner) echoRunner (\<lambda>t s. s) ''s'' shellWithSample
     = Some (True, shellWithSample\<lparr>printed := [''command = sample'', []]\<rparr>)"
proof -
  have "pathFallback sampleEnv echoRunner False True ''sample'' [] shellWithSample
      = (True, print [] (snd (echoRunner shellWithSample ''sample'' [] ''source'')))"
    by (rule pathFallback_runs [OF sample_resolved sample_read])
  then show ?thesis
    by (simp add: mainLoopStep_def trim_def jsSpace_def sample_expand sample_unhandled
        startsWith_def echoRunner_def print_def shellWithSample_def)
qed

theorem path_fallback_runs_expanded_command_witness:
  "(\<exists>src. readFile ''/bin/sample.js'' (vfs shellWithSample) = (Inr src, vfs shellWithSample) \<and>
      mainLoopStep sampleEnv (commandModules noExt echoRunner) echoRunner (\<lambda>t s. s) ''s'' shellWithSample
        = Some (True, print [] (snd (echoRunner shellWithSample ''sample'' [] src))))
   \<and> resolveScriptOnPath sampleEnv (vfs shellWithSample) ''sample'' = Some ''/bin/sample.js''"
proof -
  have h: "expandAliases (ALIAS sampleEnv) (command (parseCommandLine (trim ''s'')))
        (args (parseCommandLine (trim ''s''))) 5 = Some (''sample'', []) \<and>
      trim ''s'' \<noteq> [] \<and>
      runHandlers (commandModules noExt echoRunner) ((\<lambda>t s. s) (trim ''s'') shellWithSample) ''sample'' []
        = (Inr (False, True), shellWithSample) \<and>
      resolveScriptOnPath sampleEnv (vfs shellWithSample) ''sample'' = Some ''/bin/sample.js''"
    by (simp add: trim_def jsSpace_def sample_expand sample_unhandled sample_resolved)
  note a = path_fallback_runs_expanded_command [where e = sampleEnv and input = "''s''"
      and cmd = "''sample''" and as = "[]" and mods = "commandModules noExt echoRunner"
      and recordHistory = "\<lambda>t s. s" and ?sh0.0 = shellWithSample and ?sh1.0 = shellWithSample
      and ?sc0.0 = True and p = "''/bin/sample.js''" and rs = echoRunner,
      THEN conjunct1, rule_format, OF h]
  show ?thesis by (rule conjI [OF a sample_resolved])
qed
section \<open>Completion sessions\<close>

lemma set_insertBy [simp]: "set (insertBy le x xs) = insert x (set xs)"
  by (induction xs) auto

lemma sorted_insertBy:
  assumes total: "\<And>x y. le x y \<or> le y x" and trans: "\<And>x y z. le x y \<Longrightarrow> le y z \<Longrightarrow> le x z"
  shows "sorted_wrt le xs \<Longrightarrow> sorted_wrt le (insertBy le x xs)"
proof (induction xs)
  case Nil
  then show ?case by simp
next
  case (Cons y ys)
  show ?case
  proof (cases "le x y")
    case True
    with Cons.prems trans show ?thesis by auto
  next
    case False
    with total have "le y x" by blast
    with Cons False show ?thesis by auto
  qed
qed

lemma sorted_sortBy:
  assumes "\<And>x y. le x y \<or> le y x" and "\<And>x y z. le x y \<Longrightarrow> le y z \<Longrightarrow> le x z"
  shows "sorted_wrt le (sortBy le xs)"
  unfolding sortBy_def
  by (induction xs) (simp_all add: sorted_insertBy [OF assms])

lemma codeUnitOrder_total: "codeUnitOrder x y \<or> codeUnitOrder y x"
  by (induction x y rule: codeUnitOrder.induct) auto

lemma codeUnitOrder_trans: "codeUnitOrder x y \<Longrightarrow> codeUnitOrder y z \<Longrightarrow> codeUnitOrder x z"
proof (induction x y arbitrary: z rule: codeUnitOrder.induct)
  case (1 ys)
  then show ?case by simp
next
  case (2 x xs)
  then show ?case by simp
next
  case (3 x xs y ys)
  then show ?case by (cases z) auto
qed

lemma keyHandler_tab:
  "code ev = ''Tab'' \<Longrightarrow>
   keyHandler le commands pathCommands commandHistory v search ev st =
     (case cycleCompletionSession ev (if altKey ev \<or> shiftKey ev then -1 else 1) st of
        (Some cycled, st') \<Rightarrow> (NewInput cycled, st')
      | (None, st') \<Rightarrow> completeFresh le commands pathCommands v ev st')"
  unfolding keyHandler_def Let_def by (simp split del: if_split cong: if_weak_cong)

lemma cycle_stale:
  "completionSession st = Some s \<Longrightarrow> currentInput ev \<noteq> lastInput s \<Longrightarrow>
   cycleCompletionSession ev d st = (None, st)"
  by (simp add: cycleCompletionSession_def)

lemma cycle_none: "cycleCompletionSession ev d (st\<lparr>completionSession := None\<rparr>) = (None, st\<lparr>completionSession := None\<rparr>)"
  by (simp add: cycleCompletionSession_def)

lemma startCommand_forgets:
  "startCommandCompletionSession le commands pathCommands w (st\<lparr>completionSession := None\<rparr>)
   = startCommandCompletionSession le commands pathCommands w st"
  by (simp add: startCommandCompletionSession_def Let_def)

lemma startPath_forgets:
  "startPathCompletionSession v input w rs re q (st\<lparr>completionSession := None\<rparr>)
   = startPathCompletionSession v input w rs re q st"
  unfolding startPathCompletionSession_def
  by (simp split del: if_split cong: if_cong sum.case_cong)

lemma completeFresh_forgets:
  assumes "\<not> helloInput (currentInput ev)"
  shows "completeFresh le commands pathCommands v ev (st\<lparr>completionSession := None\<rparr>)
   = completeFresh le commands pathCommands v ev st"
proof -
  let ?t = "tokenizeCommandLine (currentInput ev)"
  let ?words = "map tvalue (ttokens ?t) @ (if endsWithSpace ?t then [[]] else [])"
  have nh: "(length ?words = 2 \<and> hd ?words = ''hello'') = False"
    using assms unfolding helloInput_def Let_def by blast
  show ?thesis
  proof (cases "length ?words \<le> 1")
    case True
    show ?thesis
      unfolding completeFresh_def Let_def
      by (simp only: True if_True startCommand_forgets startPath_forgets)
  next
    case False
    then have f: "(length ?words \<le> 1) = False" by blast
    show ?thesis
      unfolding completeFresh_def Let_def
      by (simp only: f nh if_False startPath_forgets)
  qed
qed


lemma cycle_forward: "0 < n \<Longrightarrow> nat ((int i + 1 + int n) mod int n) = (i + 1) mod n"
proof -
  assume "0 < n"
  have "(int i + 1 + int n) mod int n = (int i + 1) mod int n" by (rule mod_add_self2)
  also have "\<dots> = int ((i + 1) mod n)" by (simp add: zmod_int ac_simps)
  finally show ?thesis by simp
qed

lemma cycle_backward: "0 < n \<Longrightarrow> nat ((int i + - 1 + int n) mod int n) = (i + n - 1) mod n"
proof -
  assume n: "0 < n"
  then have "int i + - 1 + int n = int (i + n - 1)" by (simp add: of_nat_diff)
  then have "(int i + - 1 + int n) mod int n = int ((i + n - 1) mod n)" by (simp add: zmod_int)
  then show ?thesis by simp
qed

lemma keyHandler_cycles:
  assumes tab: "code ev = ''Tab''" and s: "completionSession st = Some s" and act: "active s"
    and b: "body s = CommandSession cs" and len: "1 < length cs" and same: "currentInput ev = lastInput s"
  shows "keyHandler le commands pathCommands commandHistory v search ev st =
     (let idx = (if altKey ev \<or> shiftKey ev then (index s + length cs - 1) mod length cs
                 else (index s + 1) mod length cs)
      in (NewInput (cs ! idx @ '' ''),
          st\<lparr>completionSession := Some (s\<lparr>index := idx, lastInput := cs ! idx @ '' ''\<rparr>),
             shownHint := Some (CandidateHint cs idx)\<rparr>))"
proof -
  have n: "0 < length cs" using len by auto
  show ?thesis
    unfolding keyHandler_tab [OF tab]
    using s act b len same cycle_forward [OF n, of "index s"] cycle_backward [OF n, of "index s"]
    by (simp add: cycleCompletionSession_def itemCount_def Let_def)
qed

lemma keyHandler_stale_tab:
  assumes tab: "code ev = ''Tab''" and s: "completionSession st = Some s"
    and diff: "currentInput ev \<noteq> lastInput s" and nh: "\<not> helloInput (currentInput ev)"
  shows "keyHandler le commands pathCommands commandHistory v search ev st =
         keyHandler le commands pathCommands commandHistory v search ev (st\<lparr>completionSession := None\<rparr>)"
  unfolding keyHandler_tab [OF tab] cycle_stale [OF s diff] cycle_none
  by (simp only: prod.case option.case completeFresh_forgets [OF nh])

lemma keyHandler_printable:
  assumes "\<not> searchMode st" and "length (key ev) = 1"
    and "code ev \<noteq> ''Escape''" "code ev \<noteq> ''ArrowUp''" "code ev \<noteq> ''ArrowDown''" "code ev \<noteq> ''Tab''"
    and "\<not> ctrlKey ev"
  shows "keyHandler le commands pathCommands commandHistory v search ev st =
         (Default, st\<lparr>completionSession := None, shownHint := None\<rparr>)"
  using assms by (simp add: keyHandler_def)

lemma startCommand_multiple:
  assumes total: "\<forall>x y. le x y \<or> le y x" and trans: "\<forall>x y z. le x y \<longrightarrow> le y z \<longrightarrow> le x z"
    and m: "matches = filter (\<lambda>c. startsWith c w) (sortBy le (uniqueFirst [] (commands @ pathCommands)))"
    and len: "1 < length matches"
  shows "sorted_wrt le matches \<and>
     startCommandCompletionSession le commands pathCommands w st =
       (hd matches @ '' '',
        st\<lparr>completionSession :=
              Some \<lparr>active = True, body = CommandSession matches, index = 0, lastInput = hd matches @ '' ''\<rparr>,
           shownHint := Some (CandidateHint matches 0)\<rparr>)"
proof
  have "sorted_wrt le (sortBy le (uniqueFirst [] (commands @ pathCommands)))"
    using total trans by (intro sorted_sortBy) blast+
  then show "sorted_wrt le matches" unfolding m by (rule sorted_wrt_filter)
next
  show "startCommandCompletionSession le commands pathCommands w st =
       (hd matches @ '' '',
        st\<lparr>completionSession :=
              Some \<lparr>active = True, body = CommandSession matches, index = 0, lastInput = hd matches @ '' ''\<rparr>,
           shownHint := Some (CandidateHint matches 0)\<rparr>)"
    using len unfolding startCommandCompletionSession_def m [symmetric] Let_def by simp
qed


text \<open>
  What the completion session does on the other paths. Command completion with more than one
  candidate matching the current word: the candidates are sorted by the locale order (for any
  total, transitive order), the first is proposed with a trailing space, and a session over
  them is opened at index 0. A Tab whose input equals the input last proposed moves the index
  by one, circularly (backward with Alt or Shift), and proposes that candidate. A Tab whose
  input differs from the last proposal and is not two words with \<^verbatim>\<open>hello\<close> first behaves
  exactly as if there were no session, so the old session is gone afterwards. Outside search
  mode a key with a one-character \<^verbatim>\<open>key\<close>, no Ctrl, and a code other than Escape, ArrowUp,
  ArrowDown and Tab discards the session.
\<close>

lemma command_completion_session:
  "((\<forall>x y. le x y \<or> le y x) \<and> (\<forall>x y z. le x y \<longrightarrow> le y z \<longrightarrow> le x z) \<and>
      matches = filter (\<lambda>c. startsWith c w) (sortBy le (uniqueFirst [] (commands @ pathCommands))) \<and>
      1 < length matches \<longrightarrow>
      sorted_wrt le matches \<and>
      startCommandCompletionSession le commands pathCommands w st =
        (hd matches @ '' '',
         st\<lparr>completionSession :=
               Some \<lparr>active = True, body = CommandSession matches, index = 0, lastInput = hd matches @ '' ''\<rparr>,
            shownHint := Some (CandidateHint matches 0)\<rparr>))
   \<and> (code ev = ''Tab'' \<and> completionSession st = Some s \<and> active s \<and> body s = CommandSession cs \<and>
        1 < length cs \<and> currentInput ev = lastInput s \<longrightarrow>
        keyHandler le commands pathCommands commandHistory v search ev st =
          (let idx = (if altKey ev \<or> shiftKey ev then (index s + length cs - 1) mod length cs
                      else (index s + 1) mod length cs)
           in (NewInput (cs ! idx @ '' ''),
               st\<lparr>completionSession := Some (s\<lparr>index := idx, lastInput := cs ! idx @ '' ''\<rparr>),
                  shownHint := Some (CandidateHint cs idx)\<rparr>)))
   \<and> (code ev = ''Tab'' \<and> completionSession st = Some s \<and> currentInput ev \<noteq> lastInput s \<and>
        \<not> helloInput (currentInput ev) \<longrightarrow>
        keyHandler le commands pathCommands commandHistory v search ev st =
        keyHandler le commands pathCommands commandHistory v search ev (st\<lparr>completionSession := None\<rparr>))
   \<and> (\<not> searchMode st \<and> length (key ev) = 1 \<and> \<not> ctrlKey ev \<and>
        code ev \<noteq> ''Escape'' \<and> code ev \<noteq> ''ArrowUp'' \<and> code ev \<noteq> ''ArrowDown'' \<and> code ev \<noteq> ''Tab'' \<longrightarrow>
        keyHandler le commands pathCommands commandHistory v search ev st =
          (Default, st\<lparr>completionSession := None, shownHint := None\<rparr>))"
proof (intro conjI impI)
  assume a: "(\<forall>x y. le x y \<or> le y x) \<and> (\<forall>x y z. le x y \<longrightarrow> le y z \<longrightarrow> le x z) \<and>
      matches = filter (\<lambda>c. startsWith c w) (sortBy le (uniqueFirst [] (commands @ pathCommands))) \<and>
      1 < length matches"
  note r = startCommand_multiple [OF a [THEN conjunct1] a [THEN conjunct2, THEN conjunct1]
      a [THEN conjunct2, THEN conjunct2, THEN conjunct1] a [THEN conjunct2, THEN conjunct2, THEN conjunct2],
      of st]
  show "sorted_wrt le matches" by (rule r [THEN conjunct1])
  show "startCommandCompletionSession le commands pathCommands w st =
        (hd matches @ '' '',
         st\<lparr>completionSession :=
               Some \<lparr>active = True, body = CommandSession matches, index = 0, lastInput = hd matches @ '' ''\<rparr>,
            shownHint := Some (CandidateHint matches 0)\<rparr>)"
    by (rule r [THEN conjunct2])
next
  assume a: "code ev = ''Tab'' \<and> completionSession st = Some s \<and> active s \<and> body s = CommandSession cs \<and>
        1 < length cs \<and> currentInput ev = lastInput s"
  show "keyHandler le commands pathCommands commandHistory v search ev st =
          (let idx = (if altKey ev \<or> shiftKey ev then (index s + length cs - 1) mod length cs
                      else (index s + 1) mod length cs)
           in (NewInput (cs ! idx @ '' ''),
               st\<lparr>completionSession := Some (s\<lparr>index := idx, lastInput := cs ! idx @ '' ''\<rparr>),
                  shownHint := Some (CandidateHint cs idx)\<rparr>))"
    by (rule keyHandler_cycles) (use a in blast)+
next
  assume a: "code ev = ''Tab'' \<and> completionSession st = Some s \<and> currentInput ev \<noteq> lastInput s \<and>
        \<not> helloInput (currentInput ev)"
  show "keyHandler le commands pathCommands commandHistory v search ev st =
        keyHandler le commands pathCommands commandHistory v search ev (st\<lparr>completionSession := None\<rparr>)"
    by (rule keyHandler_stale_tab) (use a in blast)+
next
  assume a: "\<not> searchMode st \<and> length (key ev) = 1 \<and> \<not> ctrlKey ev \<and>
        code ev \<noteq> ''Escape'' \<and> code ev \<noteq> ''ArrowUp'' \<and> code ev \<noteq> ''ArrowDown'' \<and> code ev \<noteq> ''Tab''"
  show "keyHandler le commands pathCommands commandHistory v search ev st =
          (Default, st\<lparr>completionSession := None, shownHint := None\<rparr>)"
    by (rule keyHandler_printable) (use a in blast)+
qed


lemmas tokenizer_eval = tokenizeCommandLine_def initTokState_def startAt_def
  pushToken_def isWhitespace_def Let_def

lemma hello_w_tokens:
  "map tvalue (ttokens (tokenizeCommandLine ''hello w'')) = [''hello'', ''w'']"
  "endsWithSpace (tokenizeCommandLine ''hello w'') = False"
  by (simp_all add: tokenizer_eval)

lemma toLowerCase_w [simp]: "toLowerCase ''w'' = ''w''"
  by (simp add: toLowerCase_def toLowerChar_def)

text \<open>
  C9. A completion request whose input differs from the prior proposal is to discard the
  session, and the two sibling branches of the Tab handler (\<^verbatim>\<open>_startCommandCompletionSession\<close>,
  \<^verbatim>\<open>_startPathCompletionSession\<close>) reset or replace \<^verbatim>\<open>state.completionSession\<close> on every
  outcome. The contextual example branch does not: with a session over \<^verbatim>\<open>ls\<close> and \<^verbatim>\<open>lsblk\<close>
  that last proposed \<^verbatim>\<open>ls \<close>, Tab on the input \<^verbatim>\<open>hello w\<close> returns \<^verbatim>\<open>hello world\<close> and the stale
  session is still in the state afterwards, although the input differs from its proposal.
\<close>

theorem tab_hello_keeps_stale_session:
  "fst (keyHandler codeUnitOrder [''ls'', ''lsblk''] [] [] newVfs noSearch (tabWith ''hello w'') uiWithSession)
     = NewInput ''hello world''
   \<and> completionSession (snd (keyHandler codeUnitOrder [''ls'', ''lsblk''] [] [] newVfs noSearch
         (tabWith ''hello w'') uiWithSession)) = Some lsSession
   \<and> currentInput (tabWith ''hello w'') \<noteq> lastInput lsSession"
proof -
  have tab: "code (tabWith ''hello w'') = ''Tab''" by (simp add: tabWith_def)
  have s: "completionSession uiWithSession = Some lsSession" by (simp add: uiWithSession_def)
  have diff: "currentInput (tabWith ''hello w'') \<noteq> lastInput lsSession"
    by (simp add: tabWith_def lsSession_def)
  have words: "map tvalue (ttokens (tokenizeCommandLine ''hello w'')) @
      (if endsWithSpace (tokenizeCommandLine ''hello w'') then [[]] else []) = [''hello'', ''w'']"
    by (simp add: hello_w_tokens)
  have fresh: "completeFresh codeUnitOrder [''ls'', ''lsblk''] [] newVfs (tabWith ''hello w'') uiWithSession
      = (NewInput ''hello world'', uiWithSession\<lparr>shownHint := Some (SuggestedNamesHint [''world''])\<rparr>)"
    unfolding completeFresh_def Let_def
    by (simp add: tabWith_def words startsWith_def hello_w_tokens split del: if_split)
  have "keyHandler codeUnitOrder [''ls'', ''lsblk''] [] [] newVfs noSearch (tabWith ''hello w'') uiWithSession
      = (NewInput ''hello world'', uiWithSession\<lparr>shownHint := Some (SuggestedNamesHint [''world''])\<rparr>)"
    unfolding keyHandler_tab [OF tab] cycle_stale [OF s diff] by (simp add: fresh)
  then show ?thesis using s diff by simp
qed


lemma example_matches:
  "filter (\<lambda>c. startsWith c ''l'') (sortBy codeUnitOrder (uniqueFirst [] ([''ls'', ''cd'', ''lsblk''] @ [''ls''])))
   = [''ls'', ''lsblk'']"
  by (simp add: sortBy_def startsWith_def)

lemma c_not_hello: "\<not> helloInput ''c''"
  by (simp add: helloInput_def tokenizer_eval)

text \<open>The other paths on the example session: first proposal, cycling, a different input, a typed key.\<close>

lemma command_completion_session_example:
  "sorted_wrt codeUnitOrder [''ls'', ''lsblk'']
   \<and> startCommandCompletionSession codeUnitOrder [''ls'', ''cd'', ''lsblk''] [''ls''] ''l'' uiWithSession =
        (hd [''ls'', ''lsblk''] @ '' '',
         uiWithSession\<lparr>completionSession :=
               Some \<lparr>active = True, body = CommandSession [''ls'', ''lsblk''], index = 0,
                     lastInput = hd [''ls'', ''lsblk''] @ '' ''\<rparr>,
            shownHint := Some (CandidateHint [''ls'', ''lsblk''] 0)\<rparr>)
   \<and> keyHandler codeUnitOrder [''ls'', ''lsblk''] [] [] newVfs noSearch (tabWith ''ls '') uiWithSession =
        (NewInput ''lsblk '',
         uiWithSession\<lparr>completionSession := Some (lsSession\<lparr>index := 1, lastInput := ''lsblk ''\<rparr>),
            shownHint := Some (CandidateHint [''ls'', ''lsblk''] 1)\<rparr>)
   \<and> keyHandler codeUnitOrder [''ls'', ''lsblk''] [] [] newVfs noSearch (tabWith ''c'') uiWithSession =
       keyHandler codeUnitOrder [''ls'', ''lsblk''] [] [] newVfs noSearch (tabWith ''c'')
         (uiWithSession\<lparr>completionSession := None\<rparr>)
   \<and> keyHandler codeUnitOrder [''ls'', ''lsblk''] [] [] newVfs noSearch typedA uiWithSession =
        (Default, uiWithSession\<lparr>completionSession := None, shownHint := None\<rparr>)"
proof -
  have h1: "(\<forall>x y. codeUnitOrder x y \<or> codeUnitOrder y x) \<and>
      (\<forall>x y z. codeUnitOrder x y \<longrightarrow> codeUnitOrder y z \<longrightarrow> codeUnitOrder x z) \<and>
      [''ls'', ''lsblk''] = filter (\<lambda>c. startsWith c ''l'')
         (sortBy codeUnitOrder (uniqueFirst [] ([''ls'', ''cd'', ''lsblk''] @ [''ls'']))) \<and>
      1 < length [''ls'', ''lsblk'']"
    using codeUnitOrder_total codeUnitOrder_trans example_matches by auto
  note a = command_completion_session [where le = codeUnitOrder and matches = "[''ls'', ''lsblk'']"
      and w = "''l''" and commands = "[''ls'', ''cd'', ''lsblk'']" and pathCommands = "[''ls'']"
      and st = uiWithSession, THEN conjunct1, rule_format, OF h1]
  have h2: "code (tabWith ''ls '') = ''Tab'' \<and> completionSession uiWithSession = Some lsSession \<and>
      active lsSession \<and> body lsSession = CommandSession [''ls'', ''lsblk''] \<and>
      1 < length [''ls'', ''lsblk''] \<and> currentInput (tabWith ''ls '') = lastInput lsSession"
    by (simp add: tabWith_def uiWithSession_def lsSession_def)
  note b = command_completion_session [where le = codeUnitOrder and commands = "[''ls'', ''lsblk'']"
      and pathCommands = "[]" and commandHistory = "[]" and v = newVfs and search = noSearch
      and ev = "tabWith ''ls ''" and st = uiWithSession and s = lsSession and cs = "[''ls'', ''lsblk'']",
      THEN conjunct2, THEN conjunct1, rule_format, OF h2]
  have h3: "code (tabWith ''c'') = ''Tab'' \<and> completionSession uiWithSession = Some lsSession \<and>
      currentInput (tabWith ''c'') \<noteq> lastInput lsSession \<and> \<not> helloInput (currentInput (tabWith ''c''))"
    using c_not_hello by (simp add: tabWith_def uiWithSession_def lsSession_def)
  note c = command_completion_session [where le = codeUnitOrder and commands = "[''ls'', ''lsblk'']"
      and pathCommands = "[]" and commandHistory = "[]" and v = newVfs and search = noSearch
      and ev = "tabWith ''c''" and st = uiWithSession and s = lsSession,
      THEN conjunct2, THEN conjunct2, THEN conjunct1, rule_format, OF h3]
  have h4: "\<not> searchMode uiWithSession \<and> length (key typedA) = 1 \<and> \<not> ctrlKey typedA \<and>
      code typedA \<noteq> ''Escape'' \<and> code typedA \<noteq> ''ArrowUp'' \<and> code typedA \<noteq> ''ArrowDown'' \<and>
      code typedA \<noteq> ''Tab''"
    by (simp add: typedA_def uiWithSession_def)
  note d = command_completion_session [where le = codeUnitOrder and commands = "[''ls'', ''lsblk'']"
      and pathCommands = "[]" and commandHistory = "[]" and v = newVfs and search = noSearch
      and ev = typedA and st = uiWithSession,
      THEN conjunct2, THEN conjunct2, THEN conjunct2, rule_format, OF h4]
  have b': "keyHandler codeUnitOrder [''ls'', ''lsblk''] [] [] newVfs noSearch (tabWith ''ls '') uiWithSession =
        (NewInput ''lsblk '',
         uiWithSession\<lparr>completionSession := Some (lsSession\<lparr>index := 1, lastInput := ''lsblk ''\<rparr>),
            shownHint := Some (CandidateHint [''ls'', ''lsblk''] 1)\<rparr>)"
    using b by (simp add: tabWith_def lsSession_def Let_def)
  show ?thesis by (rule conjI [OF a [THEN conjunct1] conjI [OF a [THEN conjunct2] conjI [OF b' conjI [OF c d]]]])
qed
section \<open>The nameless file through the touch command\<close>

lemma toLowerCase_touch [simp]: "toLowerCase ''touch'' = ''touch''"
  by (simp add: toLowerCase_def toLowerChar_def)

text \<open>The same state is reached from the shell: \<^verbatim>\<open>touch /\<close> on the default store succeeds.\<close>

lemma touch_root_creates_nameless_file:
  "files (root (state (vfs (snd (executeTouchCommand \<lparr>vfs = newVfs, printed = []\<rparr> ''touch'' [''/''])))))
     = [VfsFile None []]
   \<and> fst (executeTouchCommand \<lparr>vfs = newVfs, printed = []\<rparr> ''touch'' [''/'']) = handledOk"
  by (simp add: executeTouchCommand_def readFile_def getFile_def writeFile_def ensureFileParent_def
      popName_def resolveFolder_def mutateFolder_def save_def setItem_def newVfs_def createDefaultState_def
      print_def)

section \<open>The command gates of the handlers\<close>

lemma toLowerCase_CONFIG: "toLowerCase ''CONFIG'' = ''config''"
  by code_simp

text \<open>
  The gates of backup.js, restore.js and config.js are case-sensitive: \<^verbatim>\<open>CONFIG\<close> is handled by
  no module, while \<^verbatim>\<open>config\<close> reaches the config handler.
\<close>

lemma config_gate_is_case_sensitive:
  "fst (dispatchStrict (commandModules noExt idleRunner) sh ''CONFIG'' []) =
     \<lparr>sok = False, shandled = False, sshouldContinue = True, serror = Some ''Command not found: CONFIG''\<rparr>
   \<and> fst (dispatchStrict (commandModules noExt idleRunner) sh ''config'' []) =
     \<lparr>sok = True, shandled = True, sshouldContinue = True, serror = None\<rparr>"
  by (simp add: dispatchStrict_def commandModules_def gated_def gatedExact_def executeExitCommand_def
      executeMkdirCommand_def executeRmdirCommand_def executeCdCommand_def executeTouchCommand_def
      executeScriptFile_def notHandled_def handledOk_def noExt_def startsWith_def toLowerCase_CONFIG
      toLowerCase_def [of "''config''"] toLowerChar_def)

end
